theory Spec2Isabelle
  imports Complex_Main "HOL-Library.AList" "HOL-Library.Log_Nat"
begin

section \<open>Data model\<close>

text \<open>
  The watcher is TypeScript. Its values are modelled as follows.
  \<^item> A JavaScript \<open>number\<close> holding an amount is a \<open>js_number\<close>, an IEEE 754 double
    (next section). A \<open>Date\<close> is an \<open>int\<close> (milliseconds), and so is a timestamp.
  \<^item> An insertion-ordered \<open>Map\<close> and an object used as a dictionary are association lists in
    insertion order: \<open>map_of\<close> is \<open>get\<close>, \<open>AList.update\<close> is \<open>set\<close> (an existing key keeps
    its place, a new key goes to the end), \<open>AList.delete\<close> is \<open>delete\<close>.
  \<^item> An optional field is an \<open>option\<close>.
  Field names shared by several interfaces carry a prefix, since record fields are
  constants of the theory.
\<close>

section \<open>JavaScript numbers\<close>

text \<open>
  A number is a double: a finite one, given by its value as a rational, one of the two
  infinities, or NaN. The two zeros are one value here, since the operations that the
  functions below apply to amounts (\<open>===\<close>, \<open>!==\<close>, \<open><=\<close>, \<open>>\<close>, \<open>-\<close>, \<open>Math.abs\<close> and
  truthiness) do not tell them apart.
\<close>

datatype js_number = Num rat | PosInf | NegInf | NaN

text \<open>
  Rounding to the nearest double, ties to even. For \<open>x > 0\<close>, \<open>ilog2 x\<close> is the exponent
  \<open>e\<close> with \<open>2^e \<le> x < 2^(e+1)\<close>; the last place of a double of that size is worth \<open>2^q\<close>
  with \<open>q = max (e - 52) (-1074)\<close> (52 fraction bits, subnormal below \<open>2^-1022\<close>); a result
  of \<open>2^1024\<close> or more is an infinity.
\<close>

definition ilog2 :: "rat \<Rightarrow> int" where
  "ilog2 x = (let (p, q) = quotient_of x; k = bitlen p - bitlen q
              in if 2 powi k \<le> x then k else k - 1)"

definition round_half_even :: "rat \<Rightarrow> int" where
  "round_half_even r =
     (let f = \<lfloor>r\<rfloor>; d = r - of_int f
      in if d < 1 / 2 then f else if d > 1 / 2 then f + 1 else if even f then f else f + 1)"

definition round_double :: "rat \<Rightarrow> js_number" where
  "round_double x =
     (if x = 0 then Num 0
      else let a = \<bar>x\<bar>;
               e = ilog2 a;
               q = max (e - 52) (- 1074);
               m = round_half_even (a / 2 powi q);
               v = of_int m * 2 powi q
           in if v \<ge> 2 powi 1024 then (if x > 0 then PosInf else NegInf)
              else Num (if x > 0 then v else - v))"

text \<open>A value is a double when rounding does not change it.\<close>

definition is_double :: "rat \<Rightarrow> bool" where
  "is_double x \<longleftrightarrow> round_double x = Num x"

text \<open>\<open>a - b\<close>\<close>

fun fsub :: "js_number \<Rightarrow> js_number \<Rightarrow> js_number" where
  "fsub (Num a) (Num b) = round_double (a - b)"
| "fsub NaN _ = NaN"
| "fsub _ NaN = NaN"
| "fsub PosInf PosInf = NaN"
| "fsub NegInf NegInf = NaN"
| "fsub PosInf _ = PosInf"
| "fsub NegInf _ = NegInf"
| "fsub (Num a) PosInf = NegInf"
| "fsub (Num a) NegInf = PosInf"

text \<open>\<open>Math.abs(a)\<close>\<close>

fun fabs :: "js_number \<Rightarrow> js_number" where
  "fabs (Num a) = Num \<bar>a\<bar>"
| "fabs PosInf = PosInf"
| "fabs NegInf = PosInf"
| "fabs NaN = NaN"

text \<open>\<open>a === b\<close>: NaN equals nothing.\<close>

definition strict_eq :: "js_number \<Rightarrow> js_number \<Rightarrow> bool" where
  "strict_eq a b \<longleftrightarrow> a = b \<and> a \<noteq> NaN"

text \<open>\<open>a < b\<close>, \<open>a <= b\<close> and \<open>a > b\<close>: false when one side is NaN.\<close>

fun flt :: "js_number \<Rightarrow> js_number \<Rightarrow> bool" where
  "flt (Num a) (Num b) = (a < b)"
| "flt NaN _ = False"
| "flt _ NaN = False"
| "flt PosInf _ = False"
| "flt _ NegInf = False"
| "flt NegInf _ = True"
| "flt _ PosInf = True"

fun fle :: "js_number \<Rightarrow> js_number \<Rightarrow> bool" where
  "fle (Num a) (Num b) = (a \<le> b)"
| "fle NaN _ = False"
| "fle _ NaN = False"
| "fle NegInf _ = True"
| "fle _ PosInf = True"
| "fle _ _ = False"

definition fgt :: "js_number \<Rightarrow> js_number \<Rightarrow> bool" where
  "fgt a b = flt b a"

text \<open>Truthiness of a number, and \<open>x || d\<close>: zero and NaN are falsy.\<close>

definition truthy :: "js_number \<Rightarrow> bool" where
  "truthy x \<longleftrightarrow> x \<noteq> Num 0 \<and> x \<noteq> NaN"

definition num_or :: "js_number \<Rightarrow> js_number \<Rightarrow> js_number" where
  "num_or x d = (if truthy x then x else d)"

section \<open>The types of the watcher\<close>

subsection \<open>Snapshots and balance comparison (types.ts)\<close>

record token_balance =
  amount :: js_number
  decimals :: nat
  tb_name :: "string option"
  tb_symbol :: "string option"

type_synonym token_balances = "(string \<times> token_balance) list"

record nft_asset =
  nft_id :: string
  nft_name :: string
  collection :: "string option"
  image :: "string option"

record wallet_balances =
  solBalance :: js_number
  tokenBalances :: token_balances
  nftCount :: nat
  nftAssets :: "nft_asset list"
  totalAssets :: "nat option"

record stored_balances = wallet_balances +
  timestamp :: int

record token_change_data =
  change :: js_number
  previousAmount :: js_number
  currentAmount :: js_number
  tc_decimals :: nat

record nft_changes =
  added :: "nft_asset list"
  removed :: "nft_asset list"

record balance_comparison =
  isFirstCheck :: bool
  solChange :: js_number
  tokenChanges :: "(string \<times> token_change_data) list"
  nftChanges :: nft_changes
  previousTimestamp :: "int option"

subsection \<open>Expected payments, notes and transaction summaries (types.ts)\<close>

datatype payment_status = Pending | Received | Expired

record expected_payment =
  ep_id :: string
  ep_userId :: string
  ep_walletAddress :: string
  expectedAmount :: js_number
  tokenMint :: "string option"
  ep_note :: string
  ep_dateCreated :: int
  dueDate :: "int option"
  status :: payment_status
  tolerance :: "js_number option"

record payment_note =
  pn_id :: string
  pn_userId :: string
  pn_walletAddress :: string
  pn_transactionSignature :: string
  pn_note :: string
  pn_dateCreated :: int
  isExpectedPayment :: bool
  expectedPaymentId :: "string option"

record expected_payment_match =
  expectedPayment :: expected_payment
  actualAmount :: js_number
  variance :: js_number
  isExactMatch :: bool
  isWithinTolerance :: bool

record recent_transaction_message =
  rm_userId :: string
  rm_transactionSignature :: string
  messageId :: string
  rm_timestamp :: int
  rm_walletAddress :: string

record transaction_summary =
  ts_signature :: string
  ts_timestamp :: int
  success :: bool
  ts_solChange :: js_number
  ts_tokenChanges :: "(string \<times> js_number) list"
  fee :: js_number
  transactionType :: string

text \<open>The JSON document of the expectation store (\<open>ExpectedPaymentStorage\<close>).\<close>

record ep_file =
  f_expectedPayments :: "(string \<times> expected_payment) list"
  f_paymentNotes :: "(string \<times> payment_note) list"
  f_recentTransactionMessages :: "(string \<times> recent_transaction_message) list"
  f_lastUpdated :: int

text \<open>The JSON document of the snapshot store (\<open>BalanceData\<close>).\<close>

record balance_file =
  f_balances :: "(string \<times> stored_balances) list"
  f_balancesUpdated :: int

subsection \<open>The environment\<close>

text \<open>
  A backing file is absent, holds a document, or holds the beginning of one.
  \<open>fs.writeFile\<close> opens the file for writing, which empties it, and then writes the text:
  a call that fails on opening leaves the file as it was, a call that fails later leaves
  the beginning of the new text, which does not parse.
\<close>

datatype 'a disk = NoFile | Document 'a | Truncated

datatype write_outcome = Written | FailedAtOpen | FailedAfterTruncate

definition write_disk :: "write_outcome \<Rightarrow> 'a \<Rightarrow> 'a disk \<Rightarrow> 'a disk" where
  "write_disk outcome doc old =
     (case outcome of
        Written \<Rightarrow> Document doc
      | FailedAtOpen \<Rightarrow> old
      | FailedAfterTruncate \<Rightarrow> Truncated)"

text \<open>
  What the process cannot decide itself is read from oracles, indexed by the number of
  system calls the object has made so far (its field \<open>io\<close>): how the next \<open>fs.writeFile\<close>
  ends, what \<open>generateId\<close> returns (it is built from the clock and \<open>Math.random\<close>), and
  what \<open>new Date()\<close> reads. Every sequence of outcomes is some choice of these functions.
\<close>

record sys =
  writeFile :: "nat \<Rightarrow> write_outcome"
  generateId :: "nat \<Rightarrow> string"
  clock :: "nat \<Rightarrow> int"

datatype error =
  WriteFailed | PaymentNotFound | NotFoundOrUnauthorized | FileNotFound | ParseFailed

text \<open>The state of an \<open>ExpectedPaymentStorageService\<close>: its three maps and its file.\<close>

record ep_store =
  expectedPayments :: "(string \<times> expected_payment) list"
  paymentNotes :: "(string \<times> payment_note) list"
  recentTransactionMessages :: "(string \<times> recent_transaction_message) list"
  fileContent :: "ep_file disk"
  io :: nat

text \<open>The state of a \<open>BalanceStorage\<close>: its map and its file.\<close>

record balance_storage =
  previousBalances :: "(string \<times> stored_balances) list"
  balances_file :: "balance_file disk"
  bs_io :: nat

text \<open>
  The JSON document of the address store (\<open>WalletMappingData\<close>). The loader accepts three
  shapes for the wallets of a user: an array, an object (its keys count) and anything
  else; and it accepts a document without one of the two lists.
\<close>

datatype wallets_json = JArray "string list" | JObject "string list" | JOther

record wallet_mapping_data =
  md_userWallets :: "(string \<times> wallets_json) list option"
  md_walletUsers :: "(string \<times> string) list option"

text \<open>
  The state of a \<open>WalletStorage\<close>: a map from users to sets of addresses (a set is the list
  of its elements in insertion order), a map from addresses to users, and its file.
\<close>

record wallet_storage =
  userWallets :: "(string \<times> string list) list"
  walletUsers :: "(string \<times> string) list"
  mappings_file :: "wallet_mapping_data disk"
  ws_io :: nat

subsection \<open>Activity feed items\<close>

text \<open>
  One element of what \<open>getSignaturesForAddress\<close> returns. The tracker reads the
  \<open>signature\<close> only.
\<close>

record signature_info =
  signature :: string
  slot :: nat

type_synonym cursors = "(string \<times> string) list"

section \<open>Cursor tracker (solanaClient.ts)\<close>

text \<open>
  \<open>signatures[0]?.signature || ''\<close>: the newest identifier of the window, or the empty
  string when the window is empty.
\<close>

definition first_signature :: "signature_info list \<Rightarrow> string" where
  "first_signature signatures =
     (case signatures of [] \<Rightarrow> [] | sig # _ \<Rightarrow> signature sig)"

text \<open>The loop that collects the items in front of the cursor and stops at it.\<close>

fun collect_new :: "string \<Rightarrow> signature_info list \<Rightarrow> signature_info list" where
  "collect_new lastChecked [] = []"
| "collect_new lastChecked (sig # sigs) =
     (if signature sig = lastChecked then [] else sig # collect_new lastChecked sigs)"

text \<open>
  \<open>getNewTransactions\<close>. The first argument is the window that \<open>getRecentTransactions\<close>
  returned (newest first; the empty list when the fetch failed). The result is the list of
  new items and the cursor map after the call. \<open>!lastChecked\<close> holds for a missing entry
  and for the empty string.
\<close>

definition getNewTransactions ::
  "signature_info list \<Rightarrow> string \<Rightarrow> cursors \<Rightarrow> signature_info list \<times> cursors" where
  "getNewTransactions signatures walletAddress lcs =
     (case map_of lcs walletAddress of
        None \<Rightarrow>
          ([], AList.update walletAddress (first_signature signatures) lcs)
      | Some lastChecked \<Rightarrow>
          if lastChecked = [] then
            ([], AList.update walletAddress (first_signature signatures) lcs)
          else
            let newTransactions = collect_new lastChecked signatures
            in (newTransactions,
                if newTransactions \<noteq> []
                then AList.update walletAddress (signature (hd newTransactions))
                       lcs
                else lcs))"

section \<open>Balance differ (balanceStorage.ts)\<close>

text \<open>\<open>v || d\<close> where \<open>v\<close> may be undefined.\<close>

definition nat_or :: "nat option \<Rightarrow> nat \<Rightarrow> nat" where
  "nat_or v d = (case v of None \<Rightarrow> d | Some n \<Rightarrow> if n = 0 then d else n)"

text \<open>\<open>tokens[mint]?.amount || 0\<close>\<close>

definition amount_of :: "token_balances \<Rightarrow> string \<Rightarrow> js_number" where
  "amount_of tokens mint =
     (case map_of tokens mint of None \<Rightarrow> Num 0 | Some t \<Rightarrow> num_or (amount t) (Num 0))"

text \<open>\<open>tokens[mint]?.decimals\<close>\<close>

definition decimals_of :: "token_balances \<Rightarrow> string \<Rightarrow> nat option" where
  "decimals_of tokens mint = map_option decimals (map_of tokens mint)"

text \<open>\<open>new Set([...])\<close>: the elements in order of first occurrence.\<close>

definition js_set :: "'a list \<Rightarrow> 'a list" where
  "js_set xs = rev (remdups (rev xs))"

text \<open>The body of the loop over \<open>allMints\<close>.\<close>

definition token_step ::
  "token_balances \<Rightarrow> token_balances \<Rightarrow> string \<Rightarrow>
   (string \<times> token_change_data) list \<Rightarrow> (string \<times> token_change_data) list" where
  "token_step previousTokens currentTokens mint changes =
     (let previousAmount = amount_of previousTokens mint;
          currentAmount = amount_of currentTokens mint;
          change = fsub currentAmount previousAmount
      in if \<not> strict_eq change (Num 0)
         then AList.update mint
                \<lparr>change = change, previousAmount = previousAmount,
                 currentAmount = currentAmount,
                 tc_decimals = nat_or (decimals_of currentTokens mint)
                                 (nat_or (decimals_of previousTokens mint) 9)\<rparr>
                changes
         else changes)"

definition compareTokenBalances ::
  "token_balances \<Rightarrow> token_balances \<Rightarrow> (string \<times> token_change_data) list" where
  "compareTokenBalances previousTokens currentTokens =
     (let allMints = js_set (map fst previousTokens @ map fst currentTokens)
      in fold (token_step previousTokens currentTokens) allMints [])"

definition compareNFTs :: "nft_asset list \<Rightarrow> nft_asset list \<Rightarrow> nft_changes" where
  "compareNFTs previousNFTs currentNFTs =
     (let previousIds = set (map nft_id previousNFTs);
          currentIds = set (map nft_id currentNFTs)
      in \<lparr>added = filter (\<lambda>nft. nft_id nft \<notin> previousIds) currentNFTs,
          removed = filter (\<lambda>nft. nft_id nft \<notin> currentIds) previousNFTs\<rparr>)"

definition getPreviousBalances :: "balance_storage \<Rightarrow> string \<Rightarrow> stored_balances option" where
  "getPreviousBalances bs walletAddress = map_of (previousBalances bs) walletAddress"

definition compareBalances ::
  "balance_storage \<Rightarrow> string \<Rightarrow> wallet_balances \<Rightarrow> balance_comparison" where
  "compareBalances bs walletAddress currentBalances =
     (case getPreviousBalances bs walletAddress of
        None \<Rightarrow>
          \<lparr>isFirstCheck = True, solChange = Num 0, tokenChanges = [],
           nftChanges = \<lparr>added = [], removed = []\<rparr>, previousTimestamp = None\<rparr>
      | Some previous \<Rightarrow>
          \<lparr>isFirstCheck = False,
           solChange = fsub (solBalance currentBalances) (num_or (solBalance previous) (Num 0)),
           tokenChanges =
             compareTokenBalances (tokenBalances previous) (tokenBalances currentBalances),
           nftChanges = compareNFTs (nftAssets previous) (nftAssets currentBalances),
           previousTimestamp = Some (timestamp previous)\<rparr>)"

definition hasSignificantChanges :: "balance_comparison \<Rightarrow> bool" where
  "hasSignificantChanges comparison \<longleftrightarrow>
     \<not> strict_eq (solChange comparison) (Num 0) \<or>
     length (tokenChanges comparison) > 0 \<or>
     length (added (nftChanges comparison)) > 0 \<or>
     length (removed (nftChanges comparison)) > 0"

text \<open>
  \<open>saveToFile\<close> of the snapshot store: the whole map is written. The error of a failed
  write is logged and thrown again.
\<close>

definition bs_saveToFile :: "sys \<Rightarrow> balance_storage \<Rightarrow> (error + unit) \<times> balance_storage" where
  "bs_saveToFile sy bs =
     (let outcome = writeFile sy (bs_io bs);
          doc = \<lparr>f_balances = previousBalances bs, f_balancesUpdated = clock sy (bs_io bs)\<rparr>;
          bs' = bs\<lparr>balances_file := write_disk outcome doc (balances_file bs),
                   bs_io := Suc (bs_io bs)\<rparr>
      in (if outcome = Written then Inr () else Inl WriteFailed, bs'))"

definition updateWalletBalances ::
  "sys \<Rightarrow> string \<Rightarrow> wallet_balances \<Rightarrow> balance_storage \<Rightarrow> (error + unit) \<times> balance_storage" where
  "updateWalletBalances sy walletAddress balances bs =
     (let storedBalances = wallet_balances.extend balances
                             (stored_balances.fields (clock sy (bs_io bs)))
      in bs_saveToFile sy
           (bs\<lparr>previousBalances :=
                  AList.update walletAddress storedBalances (previousBalances bs)\<rparr>))"

section \<open>Expectation store (expectedPaymentStorage.ts)\<close>

definition saveToFile :: "sys \<Rightarrow> ep_store \<Rightarrow> (error + unit) \<times> ep_store" where
  "saveToFile sy st =
     (let outcome = writeFile sy (io st);
          doc = \<lparr>f_expectedPayments = expectedPayments st,
                 f_paymentNotes = paymentNotes st,
                 f_recentTransactionMessages = recentTransactionMessages st,
                 f_lastUpdated = clock sy (io st)\<rparr>;
          st' = st\<lparr>fileContent := write_disk outcome doc (fileContent st),
                   io := Suc (io st)\<rparr>
      in (if outcome = Written then Inr () else Inl WriteFailed, st'))"

definition addExpectedPayment ::
  "sys \<Rightarrow> expected_payment \<Rightarrow> ep_store \<Rightarrow> (error + unit) \<times> ep_store" where
  "addExpectedPayment sy payment st =
     saveToFile sy
       (st\<lparr>expectedPayments :=
              AList.update (ep_id payment) payment (expectedPayments st)\<rparr>)"

definition removeExpectedPayment ::
  "sys \<Rightarrow> string \<Rightarrow> string \<Rightarrow> ep_store \<Rightarrow> (error + unit) \<times> ep_store" where
  "removeExpectedPayment sy userId paymentId st =
     (case map_of (expectedPayments st) paymentId of
        None \<Rightarrow> (Inl NotFoundOrUnauthorized, st)
      | Some payment \<Rightarrow>
          if ep_userId payment = userId
          then saveToFile sy
                 (st\<lparr>expectedPayments := AList.delete paymentId (expectedPayments st)\<rparr>)
          else (Inl NotFoundOrUnauthorized, st))"

definition getExpectedPayments :: "ep_store \<Rightarrow> string \<Rightarrow> expected_payment list" where
  "getExpectedPayments st userId =
     filter (\<lambda>payment. ep_userId payment = userId) (map snd (expectedPayments st))"

definition getExpectedPaymentById :: "ep_store \<Rightarrow> string \<Rightarrow> expected_payment option" where
  "getExpectedPaymentById st paymentId = map_of (expectedPayments st) paymentId"

text \<open>
  \<open>payment.status = status\<close> assigns to the object that the map holds: the entry is
  changed in place.
\<close>

definition updateExpectedPaymentStatus ::
  "sys \<Rightarrow> string \<Rightarrow> payment_status \<Rightarrow> ep_store \<Rightarrow> (error + unit) \<times> ep_store" where
  "updateExpectedPaymentStatus sy paymentId newStatus st =
     (case map_of (expectedPayments st) paymentId of
        Some payment \<Rightarrow>
          saveToFile sy
            (st\<lparr>expectedPayments :=
                   AList.map_entry paymentId (\<lambda>p. p\<lparr>status := newStatus\<rparr>)
                     (expectedPayments st)\<rparr>)
      | None \<Rightarrow> (Inl PaymentNotFound, st))"

definition addPaymentNote ::
  "sys \<Rightarrow> payment_note \<Rightarrow> ep_store \<Rightarrow> (error + unit) \<times> ep_store" where
  "addPaymentNote sy paymentNote st =
     saveToFile sy
       (st\<lparr>paymentNotes := AList.update (pn_id paymentNote) paymentNote (paymentNotes st)\<rparr>)"

definition getPaymentNoteByTransaction :: "ep_store \<Rightarrow> string \<Rightarrow> payment_note option" where
  "getPaymentNoteByTransaction st transactionSignature =
     find (\<lambda>note. pn_transactionSignature note = transactionSignature)
       (map snd (paymentNotes st))"

text \<open>\<open>payment.tolerance && payment.tolerance > 0\<close>\<close>

definition has_tolerance :: "expected_payment \<Rightarrow> bool" where
  "has_tolerance payment =
     (case tolerance payment of None \<Rightarrow> False | Some t \<Rightarrow> truthy t \<and> fgt t (Num 0))"

text \<open>
  The test of the second loop: the tolerance is there and positive, and
  \<open>Math.abs(payment.expectedAmount - amount) <= payment.tolerance\<close>.
\<close>

definition within_tolerance :: "js_number \<Rightarrow> expected_payment \<Rightarrow> bool" where
  "within_tolerance amt payment \<longleftrightarrow>
     has_tolerance payment \<and>
     (case tolerance payment of
        None \<Rightarrow> False
      | Some t \<Rightarrow> fle (fabs (fsub (expectedAmount payment) amt)) t)"

text \<open>The filter of the matcher: the pending payments of the wallet and asset.\<close>

definition in_scope :: "string \<Rightarrow> string option \<Rightarrow> expected_payment \<Rightarrow> bool" where
  "in_scope walletAddress mint payment \<longleftrightarrow>
     ep_walletAddress payment = walletAddress \<and>
     status payment = Pending \<and>
     tokenMint payment = mint"

definition findMatchingExpectedPayment ::
  "ep_store \<Rightarrow> string \<Rightarrow> js_number \<Rightarrow> string option \<Rightarrow> expected_payment_match option" where
  "findMatchingExpectedPayment st walletAddress amt mint =
     (let pendingPayments = filter (in_scope walletAddress mint) (map snd (expectedPayments st))
      in case find (\<lambda>payment. strict_eq (expectedAmount payment) amt) pendingPayments of
           Some payment \<Rightarrow>
             Some \<lparr>expectedPayment = payment, actualAmount = amt, variance = Num 0,
                   isExactMatch = True, isWithinTolerance = True\<rparr>
         | None \<Rightarrow>
             (case find (within_tolerance amt) pendingPayments of
                Some payment \<Rightarrow>
                  Some \<lparr>expectedPayment = payment, actualAmount = amt,
                        variance = fabs (fsub (expectedAmount payment) amt),
                        isExactMatch = False, isWithinTolerance = True\<rparr>
              | None \<Rightarrow> None))"

text \<open>\<open>payment.dueDate && payment.dueDate < now && payment.status === 'pending'\<close>\<close>

definition is_overdue :: "int \<Rightarrow> expected_payment \<Rightarrow> bool" where
  "is_overdue now payment \<longleftrightarrow>
     (case dueDate payment of None \<Rightarrow> False | Some d \<Rightarrow> d < now) \<and> status payment = Pending"

definition cleanupExpiredPayments :: "sys \<Rightarrow> ep_store \<Rightarrow> (error + unit) \<times> ep_store" where
  "cleanupExpiredPayments sy st =
     (let now = clock sy (io st);
          removedCount = length (filter (is_overdue now) (map snd (expectedPayments st)));
          st' = st\<lparr>expectedPayments :=
                     map (\<lambda>(k, payment).
                            (k, if is_overdue now payment then payment\<lparr>status := Expired\<rparr>
                                else payment))
                       (expectedPayments st)\<rparr>
      in if removedCount > 0 then saveToFile sy st' else (Inr (), st'))"

definition addRecentTransactionMessage ::
  "sys \<Rightarrow> recent_transaction_message \<Rightarrow> ep_store \<Rightarrow> (error + unit) \<times> ep_store" where
  "addRecentTransactionMessage sy message st =
     saveToFile sy
       (st\<lparr>recentTransactionMessages :=
              AList.update (rm_userId message) message (recentTransactionMessages st)\<rparr>)"

definition getRecentTransactionByUser ::
  "ep_store \<Rightarrow> string \<Rightarrow> recent_transaction_message option" where
  "getRecentTransactionByUser st userId = map_of (recentTransactionMessages st) userId"

definition is_old :: "int \<Rightarrow> recent_transaction_message \<Rightarrow> bool" where
  "is_old now message \<longleftrightarrow> now - rm_timestamp message > 30 * 60 * 1000"

definition cleanupOldTransactionMessages :: "sys \<Rightarrow> ep_store \<Rightarrow> (error + unit) \<times> ep_store" where
  "cleanupOldTransactionMessages sy st =
     (let now = clock sy (io st);
          removedCount = length (filter (is_old now) (map snd (recentTransactionMessages st)));
          st' = st\<lparr>recentTransactionMessages :=
                     filter (\<lambda>(k, message). \<not> is_old now message)
                       (recentTransactionMessages st)\<rparr>
      in if removedCount > 0 then saveToFile sy st' else (Inr (), st'))"

text \<open>A call of \<open>generateId\<close>: the identifier comes from the environment.\<close>

definition fresh_id :: "sys \<Rightarrow> ep_store \<Rightarrow> string \<times> ep_store" where
  "fresh_id sy st = (generateId sy (io st), st\<lparr>io := Suc (io st)\<rparr>)"

section \<open>Address store (class \<open>WalletStorage\<close>)\<close>

text \<open>
  The class that maps users to addresses and addresses to users. It keeps two maps and
  writes both to its file after every change.
\<close>

text \<open>\<open>set.add(x)\<close> on a set kept as the list of its elements.\<close>

definition set_add :: "'a \<Rightarrow> 'a list \<Rightarrow> 'a list" where
  "set_add x xs = (if x \<in> set xs then xs else xs @ [x])"

text \<open>\<open>new Map(entries)\<close>\<close>

definition map_from_entries :: "('k \<times> 'v) list \<Rightarrow> ('k \<times> 'v) list" where
  "map_from_entries entries = fold (\<lambda>(k, v) m. AList.update k v m) entries []"

definition ws_saveToFile :: "sys \<Rightarrow> wallet_storage \<Rightarrow> (error + unit) \<times> wallet_storage" where
  "ws_saveToFile sy ws =
     (let outcome = writeFile sy (ws_io ws);
          doc = \<lparr>md_userWallets = Some (map (\<lambda>(userId, wallets). (userId, JArray wallets))
                                           (userWallets ws)),
                 md_walletUsers = Some (walletUsers ws)\<rparr>;
          ws' = ws\<lparr>mappings_file := write_disk outcome doc (mappings_file ws),
                   ws_io := Suc (ws_io ws)\<rparr>
      in (if outcome = Written then Inr () else Inl WriteFailed, ws'))"

text \<open>
  \<open>if (!this.userWallets.has(userId)) this.userWallets.set(userId, new Set());
  this.userWallets.get(userId)!.add(walletAddress)\<close>
\<close>

definition add_to_user ::
  "string \<Rightarrow> string \<Rightarrow> (string \<times> string list) list \<Rightarrow> (string \<times> string list) list" where
  "add_to_user userId walletAddress uw =
     AList.map_entry userId (set_add walletAddress)
       (if map_of uw userId = None then AList.update userId [] uw else uw)"

definition addWallet ::
  "sys \<Rightarrow> string \<Rightarrow> string \<Rightarrow> wallet_storage \<Rightarrow> (error + unit) \<times> wallet_storage" where
  "addWallet sy userId walletAddress ws =
     ws_saveToFile sy
       (ws\<lparr>userWallets := add_to_user userId walletAddress (userWallets ws),
           walletUsers := AList.update walletAddress userId (walletUsers ws)\<rparr>)"

definition removeWallet ::
  "sys \<Rightarrow> string \<Rightarrow> string \<Rightarrow> wallet_storage \<Rightarrow> (error + unit) \<times> wallet_storage" where
  "removeWallet sy userId walletAddress ws =
     (let uw = (case map_of (userWallets ws) userId of
                  None \<Rightarrow> userWallets ws
                | Some wallets \<Rightarrow>
                    if removeAll walletAddress wallets = []
                    then AList.delete userId (userWallets ws)
                    else AList.map_entry userId (removeAll walletAddress) (userWallets ws))
      in ws_saveToFile sy
           (ws\<lparr>userWallets := uw,
               walletUsers := AList.delete walletAddress (walletUsers ws)\<rparr>))"

definition getUserWallets :: "wallet_storage \<Rightarrow> string \<Rightarrow> string list" where
  "getUserWallets ws userId =
     (case map_of (userWallets ws) userId of None \<Rightarrow> [] | Some wallets \<Rightarrow> wallets)"

definition getWalletOwner :: "wallet_storage \<Rightarrow> string \<Rightarrow> string option" where
  "getWalletOwner ws walletAddress = map_of (walletUsers ws) walletAddress"

definition getAllWallets :: "wallet_storage \<Rightarrow> string list" where
  "getAllWallets ws = map fst (walletUsers ws)"

text \<open>The wallets of one user as the loader reads them.\<close>

fun wallets_of_json :: "wallets_json \<Rightarrow> string list" where
  "wallets_of_json (JArray wallets) = js_set wallets"
| "wallets_of_json (JObject keys) = js_set keys"
| "wallets_of_json JOther = []"

text \<open>
  \<open>loadFromFile\<close>. Reading fails when there is no file, parsing fails on the beginning of
  a document. When the document gives no wallets of users but gives users of wallets,
  the first map is rebuilt from the second and the result is saved; the error of that
  write is thrown on.
\<close>

definition ws_loadFromFile :: "sys \<Rightarrow> wallet_storage \<Rightarrow> (error + unit) \<times> wallet_storage" where
  "ws_loadFromFile sy ws =
     (case mappings_file ws of
        NoFile \<Rightarrow> (Inl FileNotFound, ws)
      | Truncated \<Rightarrow> (Inl ParseFailed, ws)
      | Document parsed \<Rightarrow>
          (let uw = (case md_userWallets parsed of
                       None \<Rightarrow> []
                     | Some entries \<Rightarrow>
                         fold (\<lambda>(userId, wallets) m.
                                 AList.update userId (wallets_of_json wallets) m)
                           entries []);
               wu = map_from_entries
                      (case md_walletUsers parsed of None \<Rightarrow> [] | Some entries \<Rightarrow> entries);
               ws1 = ws\<lparr>userWallets := uw, walletUsers := wu\<rparr>
           in if length uw = 0 \<and> length wu > 0
              then ws_saveToFile sy
                     (ws1\<lparr>userWallets :=
                            fold (\<lambda>(walletAddress, userId) m.
                                    add_to_user userId walletAddress m) wu []\<rparr>)
              else (Inr (), ws1)))"

text \<open>
  \<open>initialize\<close> catches whatever \<open>loadFromFile\<close> throws and starts with empty maps; it
  throws nothing itself.
\<close>

definition ws_initialize :: "sys \<Rightarrow> wallet_storage \<Rightarrow> wallet_storage" where
  "ws_initialize sy ws =
     (case ws_loadFromFile sy ws of
        (Inl e, ws') \<Rightarrow> ws'\<lparr>userWallets := [], walletUsers := []\<rparr>
      | (Inr u, ws') \<Rightarrow> ws')"

section \<open>Reconciliation loop (walletMonitor.ts)\<close>

text \<open>
  The collaborators of one tick: whether a chat client is attached, the window of the
  feed for an address, the summary the parser gives for a transaction and an address
  (\<open>None\<close> for \<open>null\<close> and for an error thrown), the text that
  \<open>balanceService.getBalanceChangeSummary\<close> builds for it (\<open>None\<close> when that call
  throws: it fetches the balances of the address and asks the address store for the name
  of the wallet), and the identifier of the message when the notification was delivered
  to a user (\<open>None\<close> when it was not). The balance comparison that ends the work on a
  transaction runs in a \<open>try\<close> of its own and writes to the snapshot store only; it is
  left out here.
\<close>

record collaborators =
  discordBot :: bool
  getRecentTransactions :: "string \<Rightarrow> signature_info list"
  getTransactionSummary :: "string \<Rightarrow> string \<Rightarrow> transaction_summary option"
  getBalanceChangeSummary :: "string \<Rightarrow> transaction_summary \<Rightarrow> string option"
  sentMessage :: "string \<Rightarrow> string \<Rightarrow> string option"

record monitor =
  storage :: ep_store
  walletStorage :: wallet_storage
  lastCheckedSignatures :: cursors
  isRunning :: bool

text \<open>
  \<open>handleExpectedPaymentMatch\<close>: everything runs inside one \<open>try\<close>, so a failed write
  ends the handler and is not passed on.
\<close>

definition handleExpectedPaymentMatch ::
  "sys \<Rightarrow> expected_payment_match \<Rightarrow> transaction_summary \<Rightarrow> ep_store \<Rightarrow> ep_store" where
  "handleExpectedPaymentMatch sy match summary st =
     (case updateExpectedPaymentStatus sy (ep_id (expectedPayment match)) Received st of
        (Inl e, st1) \<Rightarrow> st1
      | (Inr u, st1) \<Rightarrow>
          (let (newId, st2) = fresh_id sy st1;
               paymentNote =
                 \<lparr>pn_id = newId,
                  pn_userId = ep_userId (expectedPayment match),
                  pn_walletAddress = ep_walletAddress (expectedPayment match),
                  pn_transactionSignature = ts_signature summary,
                  pn_note = ''Expected payment: '' @ ep_note (expectedPayment match),
                  pn_dateCreated = clock sy (io st2),
                  isExpectedPayment = True,
                  expectedPaymentId = Some (ep_id (expectedPayment match))\<rparr>
           in snd (addPaymentNote sy paymentNote st2)))"

text \<open>One lookup of \<open>checkExpectedPaymentMatches\<close>: \<open>if (match && this.discordBot)\<close>.\<close>

definition match_and_handle ::
  "collaborators \<Rightarrow> sys \<Rightarrow> string \<Rightarrow> js_number \<Rightarrow> string option \<Rightarrow> transaction_summary \<Rightarrow>
   ep_store \<Rightarrow> ep_store" where
  "match_and_handle co sy walletAddress amt mint summary st =
     (case findMatchingExpectedPayment st walletAddress amt mint of
        Some match \<Rightarrow>
          if discordBot co then handleExpectedPaymentMatch sy match summary st else st
      | None \<Rightarrow> st)"

definition checkExpectedPaymentMatches ::
  "collaborators \<Rightarrow> sys \<Rightarrow> string \<Rightarrow> transaction_summary \<Rightarrow> ep_store \<Rightarrow> ep_store" where
  "checkExpectedPaymentMatches co sy walletAddress summary st =
     (let st1 = (if fgt (ts_solChange summary) (Num 0)
                 then match_and_handle co sy walletAddress (ts_solChange summary) None
                        summary st
                 else st)
      in fold (\<lambda>(mint, chg) s.
                 if fgt chg (Num 0)
                 then match_and_handle co sy walletAddress chg (Some mint) summary s
                 else s)
           (ts_tokenChanges summary) st1)"

text \<open>\<open>trackTransactionMessage\<close> of the chat client catches the error of a failed write.\<close>

definition trackTransactionMessage ::
  "sys \<Rightarrow> string \<Rightarrow> string \<Rightarrow> string \<Rightarrow> string \<Rightarrow> ep_store \<Rightarrow> ep_store" where
  "trackTransactionMessage sy userId transactionSignature msgId walletAddress st =
     snd (addRecentTransactionMessage sy
            \<lparr>rm_userId = userId, rm_transactionSignature = transactionSignature,
             messageId = msgId, rm_timestamp = clock sy (io st),
             rm_walletAddress = walletAddress\<rparr> st)"

text \<open>
  \<open>sendTransactionNotification\<close> gives up when the address has no owner; it tracks the
  message it delivered.
\<close>

definition sendTransactionNotification ::
  "collaborators \<Rightarrow> sys \<Rightarrow> wallet_storage \<Rightarrow> string \<Rightarrow> transaction_summary \<Rightarrow>
   ep_store \<Rightarrow> ep_store" where
  "sendTransactionNotification co sy ws walletAddress summary st =
     (case getWalletOwner ws walletAddress of
        None \<Rightarrow> st
      | Some userId \<Rightarrow>
          (case sentMessage co userId (ts_signature summary) of
             Some msgId \<Rightarrow>
               trackTransactionMessage sy userId (ts_signature summary) msgId walletAddress st
           | None \<Rightarrow> st))"

text \<open>
  The body of the loop over the new transactions of one address. It runs in a \<open>try\<close>: when
  \<open>getBalanceChangeSummary\<close> throws, the transaction is neither notified nor matched.
\<close>

definition process_transaction ::
  "collaborators \<Rightarrow> sys \<Rightarrow> wallet_storage \<Rightarrow> string \<Rightarrow> signature_info \<Rightarrow>
   ep_store \<Rightarrow> ep_store" where
  "process_transaction co sy ws walletAddress tx st =
     (case getTransactionSummary co (signature tx) walletAddress of
        Some summary \<Rightarrow>
          if discordBot co
          then (case getBalanceChangeSummary co walletAddress summary of
                  None \<Rightarrow> st
                | Some balanceChangeSummary \<Rightarrow>
                    checkExpectedPaymentMatches co sy walletAddress summary
                      (sendTransactionNotification co sy ws walletAddress summary st))
          else st
      | None \<Rightarrow> st)"

definition checkWalletTransactions ::
  "collaborators \<Rightarrow> sys \<Rightarrow> string \<Rightarrow> monitor \<Rightarrow> monitor" where
  "checkWalletTransactions co sy walletAddress m =
     (let (newTransactions, lcs) =
            getNewTransactions (getRecentTransactions co walletAddress) walletAddress
              (lastCheckedSignatures m);
          m1 = m\<lparr>lastCheckedSignatures := lcs\<rparr>
      in if newTransactions = [] then m1
         else m1\<lparr>storage :=
                   fold (process_transaction co sy (walletStorage m1) walletAddress)
                     (rev newTransactions) (storage m1)\<rparr>)"

definition checkAllWallets :: "collaborators \<Rightarrow> sys \<Rightarrow> monitor \<Rightarrow> monitor" where
  "checkAllWallets co sy m =
     fold (checkWalletTransactions co sy) (getAllWallets (walletStorage m)) m"

text \<open>The callback of the timer: \<open>if (this.isRunning) await this.checkAllWallets()\<close>.\<close>

definition tick :: "collaborators \<Rightarrow> sys \<Rightarrow> monitor \<Rightarrow> monitor" where
  "tick co sy m = (if isRunning m then checkAllWallets co sy m else m)"

text \<open>
  \<open>start\<close>: the two clean-up calls run once, before the timer is set up. An error of a
  failed write leaves \<open>start\<close> at that point.
\<close>

definition start :: "sys \<Rightarrow> monitor \<Rightarrow> (error + unit) \<times> monitor" where
  "start sy m =
     (let m1 = m\<lparr>isRunning := True\<rparr>
      in case cleanupExpiredPayments sy (storage m1) of
           (Inl e, st1) \<Rightarrow> (Inl e, m1\<lparr>storage := st1\<rparr>)
         | (Inr u, st1) \<Rightarrow>
             (case cleanupOldTransactionMessages sy st1 of
                (Inl e, st2) \<Rightarrow> (Inl e, m1\<lparr>storage := st2\<rparr>)
              | (Inr v, st2) \<Rightarrow> (Inr (), m1\<lparr>storage := st2\<rparr>)))"

section \<open>Commands that write notes (discordBot.ts)\<close>

datatype note_reply = NoteAlreadyExists | NoteAdded | NoteAddFailed

definition handleAddPaymentNote ::
  "sys \<Rightarrow> string \<Rightarrow> string \<Rightarrow> string \<Rightarrow> ep_store \<Rightarrow> note_reply \<times> ep_store" where
  "handleAddPaymentNote sy userId transactionSignature note st =
     (case getPaymentNoteByTransaction st transactionSignature of
        Some existingNote \<Rightarrow> (NoteAlreadyExists, st)
      | None \<Rightarrow>
          (let (newId, st1) = fresh_id sy st;
               paymentNote =
                 \<lparr>pn_id = newId, pn_userId = userId, pn_walletAddress = [],
                  pn_transactionSignature = transactionSignature, pn_note = note,
                  pn_dateCreated = clock sy (io st1), isExpectedPayment = False,
                  expectedPaymentId = None\<rparr>
           in case addPaymentNote sy paymentNote st1 of
                (Inl e, st2) \<Rightarrow> (NoteAddFailed, st2)
              | (Inr u, st2) \<Rightarrow> (NoteAdded, st2)))"

datatype dm_reply = DmNoteAdded | DmNoteTooLong | DmNoRecentTransaction | DmError

text \<open>
  \<open>handleDirectMessage\<close>, from the trimmed text of a direct message on: the text becomes
  a note on the transaction of the last notification sent to the user.
\<close>

definition handleDirectMessage ::
  "sys \<Rightarrow> string \<Rightarrow> string \<Rightarrow> ep_store \<Rightarrow> dm_reply \<times> ep_store" where
  "handleDirectMessage sy userId content st =
     (case getRecentTransactionByUser st userId of
        Some recentTransaction \<Rightarrow>
          if length content > 0 \<and> length content \<le> 500
          then (let (newId, st1) = fresh_id sy st;
                    paymentNote =
                      \<lparr>pn_id = newId, pn_userId = userId,
                       pn_walletAddress = rm_walletAddress recentTransaction,
                       pn_transactionSignature = rm_transactionSignature recentTransaction,
                       pn_note = content, pn_dateCreated = clock sy (io st1),
                       isExpectedPayment = False, expectedPaymentId = None\<rparr>
                in case addPaymentNote sy paymentNote st1 of
                     (Inl e, st2) \<Rightarrow> (DmError, st2)
                   | (Inr u, st2) \<Rightarrow> (DmNoteAdded, st2))
          else (DmNoteTooLong, st)
      | None \<Rightarrow> (DmNoRecentTransaction, st))"

section \<open>Sequences of store operations\<close>

text \<open>
  The operations of the store as the program calls them, each with the environment it
  runs in. A status is written by \<open>cleanupExpiredPayments\<close> and by the match handler of
  the monitor; \<open>updateExpectedPaymentStatus\<close> has no other caller.
\<close>

datatype store_op =
    OpAdd expected_payment
  | OpRemove string string
  | OpCleanupExpired
  | OpMatch string transaction_summary
  | OpAddNote payment_note
  | OpTrack recent_transaction_message
  | OpCleanupOld

fun apply_op :: "collaborators \<times> sys \<times> store_op \<Rightarrow> ep_store \<Rightarrow> ep_store" where
  "apply_op (co, sy, OpAdd payment) st = snd (addExpectedPayment sy payment st)"
| "apply_op (co, sy, OpRemove userId paymentId) st = snd (removeExpectedPayment sy userId paymentId st)"
| "apply_op (co, sy, OpCleanupExpired) st = snd (cleanupExpiredPayments sy st)"
| "apply_op (co, sy, OpMatch walletAddress summary) st =
     checkExpectedPaymentMatches co sy walletAddress summary st"
| "apply_op (co, sy, OpAddNote paymentNote) st = snd (addPaymentNote sy paymentNote st)"
| "apply_op (co, sy, OpTrack message) st = snd (addRecentTransactionMessage sy message st)"
| "apply_op (co, sy, OpCleanupOld) st = snd (cleanupOldTransactionMessages sy st)"

text \<open>
  The map of a store that the program has built is keyed by the identifiers of its
  payments, and no key occurs twice.
\<close>

definition keyed_by_id :: "(string \<times> expected_payment) list \<Rightarrow> bool" where
  "keyed_by_id eps \<longleftrightarrow>
     distinct (map fst eps) \<and> (\<forall>k p. map_of eps k = Some p \<longrightarrow> ep_id p = k)"

text \<open>
  Two relations between the map before and after a step: entries are unchanged or have
  their status set to received; and the same, for entries that were pending.
\<close>

definition only_received ::
  "(string \<times> expected_payment) list \<Rightarrow> (string \<times> expected_payment) list \<Rightarrow> bool" where
  "only_received eps eps' \<longleftrightarrow>
     (\<forall>k. map_of eps' k = map_of eps k \<or>
          (\<exists>p. map_of eps k = Some p \<and> map_of eps' k = Some (p\<lparr>status := Received\<rparr>)))"

definition pending_to_received ::
  "(string \<times> expected_payment) list \<Rightarrow> (string \<times> expected_payment) list \<Rightarrow> bool" where
  "pending_to_received eps eps' \<longleftrightarrow>
     (\<forall>k. map_of eps' k = map_of eps k \<or>
          (\<exists>p. map_of eps k = Some p \<and> status p = Pending \<and>
               map_of eps' k = Some (p\<lparr>status := Received\<rparr>)))"

section \<open>Example values\<close>

text \<open>
  Concrete inputs at which the theorems below are instantiated. First the doubles that
  the decimal literals 0.98, 0.99, 0.05, 1.03, 100.1, 0.1, 0.3, 0.2, 759.65, 56.34 and
  703.31 denote, and the doubles that print as 0.020000000000000018 and
  0.19999999999999998.
\<close>

definition n0_98 :: js_number where
  "n0_98 = Num (2206763817411543 / 2251799813685248)"

definition n0_99 :: js_number where
  "n0_99 = Num (4458563631096791 / 4503599627370496)"

definition n0_05 :: js_number where
  "n0_05 = Num (3602879701896397 / 72057594037927936)"

definition n1_03 :: js_number where
  "n1_03 = Num (4638707616191611 / 4503599627370496)"

definition n100_1 :: js_number where
  "n100_1 = Num (3521955646092083 / 35184372088832)"

definition n0_1 :: js_number where
  "n0_1 = Num (3602879701896397 / 36028797018963968)"

definition n0_020000000000000018 :: js_number where
  "n0_020000000000000018 = Num (45035996273705 / 2251799813685248)"

definition n0_3 :: js_number where
  "n0_3 = Num (5404319552844595 / 18014398509481984)"

definition n0_2 :: js_number where
  "n0_2 = Num (3602879701896397 / 18014398509481984)"

definition n0_19999999999999998 :: js_number where
  "n0_19999999999999998 = Num (7205759403792793 / 36028797018963968)"

definition n759_65 :: js_number where
  "n759_65 = Num (6681952064320307 / 8796093022208)"

definition n56_34 :: js_number where
  "n56_34 = Num (1982287523484795 / 35184372088832)"

definition n703_31 :: js_number where
  "n703_31 = Num (1546595045862277 / 2199023255552)"

definition ex_window :: "signature_info list" where
  "ex_window = [\<lparr>signature = ''sig9'', slot = 9\<rparr>, \<lparr>signature = ''sig8'', slot = 8\<rparr>]"

definition ex_cursors :: cursors where
  "ex_cursors = [(''walletA'', ''sig9'')]"

definition ex_prev :: stored_balances where
  "ex_prev = \<lparr>solBalance = Num (5 / 2),
              tokenBalances =
                [(''M1'', \<lparr>amount = Num 10, decimals = 6, tb_name = None, tb_symbol = None\<rparr>)],
              nftCount = 0, nftAssets = [], totalAssets = None, timestamp = 1000\<rparr>"

definition ex_cur :: wallet_balances where
  "ex_cur = \<lparr>solBalance = Num 2,
             tokenBalances =
               [(''M1'', \<lparr>amount = Num 10, decimals = 6, tb_name = None, tb_symbol = None\<rparr>),
                (''M2'', \<lparr>amount = Num 5, decimals = 6, tb_name = None, tb_symbol = None\<rparr>)],
             nftCount = 0, nftAssets = [], totalAssets = None\<rparr>"

definition ex_bs :: balance_storage where
  "ex_bs = \<lparr>previousBalances = [(''walletA'', ex_prev)],
            balances_file =
              Document \<lparr>f_balances = [(''walletA'', ex_prev)], f_balancesUpdated = 1000\<rparr>,
            bs_io = 0\<rparr>"

definition ex_bs_empty :: balance_storage where
  "ex_bs_empty = \<lparr>previousBalances = [], balances_file = NoFile, bs_io = 0\<rparr>"

text \<open>A wallet that held 0.1 and holds 100.1.\<close>

definition ex_prev_tenth :: stored_balances where
  "ex_prev_tenth = \<lparr>solBalance = n0_1, tokenBalances = [], nftCount = 0, nftAssets = [],
                    totalAssets = None, timestamp = 1000\<rparr>"

definition ex_cur_hundred :: wallet_balances where
  "ex_cur_hundred = \<lparr>solBalance = n100_1, tokenBalances = [], nftCount = 0, nftAssets = [],
                     totalAssets = None\<rparr>"

definition ex_bs_tenth :: balance_storage where
  "ex_bs_tenth = \<lparr>previousBalances = [(''walletB'', ex_prev_tenth)], balances_file = NoFile,
                  bs_io = 0\<rparr>"

text \<open>
  Three environments: every write succeeds; every write fails after the file was emptied
  (a full disk); every write fails on opening (a file that may not be written).
\<close>

definition ex_sys :: sys where
  "ex_sys = \<lparr>writeFile = (\<lambda>n. Written),
             generateId = (\<lambda>n. ''id'' @ replicate n (CHR ''x'')),
             clock = (\<lambda>n. 2000000 + int n)\<rparr>"

definition ex_sys_disk_full :: sys where
  "ex_sys_disk_full = ex_sys\<lparr>writeFile := (\<lambda>n. FailedAfterTruncate)\<rparr>"

definition ex_sys_read_only :: sys where
  "ex_sys_read_only = ex_sys\<lparr>writeFile := (\<lambda>n. FailedAtOpen)\<rparr>"

definition ex_empty :: ep_store where
  "ex_empty = \<lparr>expectedPayments = [], paymentNotes = [], recentTransactionMessages = [],
               fileContent = NoFile, io = 0\<rparr>"

definition ex_exact :: expected_payment where
  "ex_exact = \<lparr>ep_id = ''e1'', ep_userId = ''u1'', ep_walletAddress = ''walletA'',
               expectedAmount = Num 1, tokenMint = None, ep_note = ''rent'',
               ep_dateCreated = 0, dueDate = None, status = Pending, tolerance = None\<rparr>"

definition ex_tol :: expected_payment where
  "ex_tol = \<lparr>ep_id = ''t1'', ep_userId = ''u1'', ep_walletAddress = ''walletA'',
             expectedAmount = n0_98, tokenMint = None, ep_note = ''invoice 7'',
             ep_dateCreated = 0, dueDate = None, status = Pending, tolerance = Some n0_05\<rparr>"

definition ex_tol2 :: expected_payment where
  "ex_tol2 = \<lparr>ep_id = ''t2'', ep_userId = ''u1'', ep_walletAddress = ''walletA'',
              expectedAmount = n0_99, tokenMint = None, ep_note = ''invoice 8'',
              ep_dateCreated = 0, dueDate = None, status = Pending, tolerance = Some n0_05\<rparr>"

definition ex_tol3 :: expected_payment where
  "ex_tol3 = \<lparr>ep_id = ''t3'', ep_userId = ''u1'', ep_walletAddress = ''walletA'',
              expectedAmount = Num 1, tokenMint = None, ep_note = ''invoice 9'',
              ep_dateCreated = 0, dueDate = None, status = Pending, tolerance = Some n0_05\<rparr>"

definition ex_edge :: expected_payment where
  "ex_edge = \<lparr>ep_id = ''g1'', ep_userId = ''u1'', ep_walletAddress = ''walletA'',
              expectedAmount = n759_65, tokenMint = None, ep_note = ''invoice 10'',
              ep_dateCreated = 0, dueDate = None, status = Pending, tolerance = Some n703_31\<rparr>"

definition add_all :: "expected_payment list \<Rightarrow> ep_store \<Rightarrow> ep_store" where
  "add_all ps st = fold (\<lambda>p s. snd (addExpectedPayment ex_sys p s)) ps st"

definition ex_due :: expected_payment where
  "ex_due = \<lparr>ep_id = ''d1'', ep_userId = ''u1'', ep_walletAddress = ''walletA'',
             expectedAmount = Num 3, tokenMint = None, ep_note = ''deposit'',
             ep_dateCreated = 0, dueDate = Some 100, status = Pending, tolerance = None\<rparr>"

definition ex_summary :: transaction_summary where
  "ex_summary = \<lparr>ts_signature = ''tx1'', ts_timestamp = 4000, success = True,
                 ts_solChange = Num 1, ts_tokenChanges = [], fee = Num 0,
                 transactionType = ''Received SOL''\<rparr>"

definition ex_co_quiet :: collaborators where
  "ex_co_quiet = \<lparr>discordBot = True,
                  getRecentTransactions = (\<lambda>w. []),
                  getTransactionSummary = (\<lambda>s w. None),
                  getBalanceChangeSummary = (\<lambda>w s. Some ''summary''),
                  sentMessage = (\<lambda>u s. None)\<rparr>"

definition ex_co_tx :: collaborators where
  "ex_co_tx = \<lparr>discordBot = True,
               getRecentTransactions =
                 (\<lambda>w. [\<lparr>signature = ''tx1'', slot = 1\<rparr>, \<lparr>signature = ''tx0'', slot = 0\<rparr>]),
               getTransactionSummary = (\<lambda>s w. if s = ''tx1'' then Some ex_summary else None),
               getBalanceChangeSummary = (\<lambda>w s. Some ''summary''),
               sentMessage = (\<lambda>u s. Some ''msg1'')\<rparr>"

text \<open>The address store after user \<open>u1\<close> added \<open>walletA\<close>.\<close>

definition ex_ws_empty :: wallet_storage where
  "ex_ws_empty = \<lparr>userWallets = [], walletUsers = [], mappings_file = NoFile, ws_io = 0\<rparr>"

definition ex_ws :: wallet_storage where
  "ex_ws = snd (addWallet ex_sys ''u1'' ''walletA'' ex_ws_empty)"

text \<open>
  An address store before \<open>initialize\<close>, over a file that lists the users of the wallets
  and no wallets of the users.
\<close>

definition ex_ws_legacy :: wallet_storage where
  "ex_ws_legacy =
     \<lparr>userWallets = [], walletUsers = [],
      mappings_file =
        Document \<lparr>md_userWallets = Some [], md_walletUsers = Some [(''walletA'', ''u1'')]\<rparr>,
      ws_io = 0\<rparr>"

definition ex_monitor_due :: monitor where
  "ex_monitor_due = \<lparr>storage = add_all [ex_due] ex_empty, walletStorage = ex_ws,
                     lastCheckedSignatures = [(''walletA'', ''tx0'')], isRunning = True\<rparr>"

definition ex_monitor :: monitor where
  "ex_monitor = \<lparr>storage = add_all [ex_exact] ex_empty, walletStorage = ex_ws,
                 lastCheckedSignatures = [(''walletA'', ''tx0'')], isRunning = True\<rparr>"

definition ex_received :: ep_store where
  "ex_received =
     checkExpectedPaymentMatches ex_co_quiet ex_sys ''walletA'' ex_summary
       (add_all [ex_exact] ex_empty)"

definition ex_noted :: ep_store where
  "ex_noted = snd (handleAddPaymentNote ex_sys ''u1'' ''tx1'' ''thanks'' (add_all [ex_exact] ex_empty))"

definition ex_ops :: "(collaborators \<times> sys \<times> store_op) list" where
  "ex_ops = [(ex_co_quiet, ex_sys, OpCleanupExpired),
             (ex_co_quiet, ex_sys, OpMatch ''walletA'' ex_summary),
             (ex_co_quiet, ex_sys, OpAdd ex_tol)]"

definition ex_note :: payment_note where
  "ex_note = \<lparr>pn_id = ''n1'', pn_userId = ''u1'', pn_walletAddress = ''walletA'',
              pn_transactionSignature = ''tx1'', pn_note = ''thanks'', pn_dateCreated = 4500,
              isExpectedPayment = False, expectedPaymentId = None\<rparr>"

definition ex_message :: recent_transaction_message where
  "ex_message = \<lparr>rm_userId = ''u1'', rm_transactionSignature = ''tx1'', messageId = ''msg1'',
                 rm_timestamp = 100, rm_walletAddress = ''walletA''\<rparr>"

definition ex_stale :: ep_store where
  "ex_stale = snd (addRecentTransactionMessage ex_sys ex_message (add_all [ex_due] ex_empty))"

section \<open>Properties of rounding\<close>

lemma ilog2_bounds:
  assumes "0 < x"
  shows "2 powi (ilog2 x) \<le> x \<and> x < 2 powi (ilog2 x + 1)"
proof -
  obtain p q where pq: "quotient_of x = (p, q)" by (cases "quotient_of x")
  have q0: "0 < q" using quotient_of_denom_pos [OF pq] .
  have x: "x = of_int p / of_int q" using quotient_of_div [OF pq] .
  have p0: "0 < p"
  proof (rule ccontr)
    assume "\<not> 0 < p"
    then have "of_int p \<le> (0::rat)" by simp
    moreover have "(0::rat) < of_int q" using q0 by simp
    ultimately have "x \<le> 0" unfolding x by (simp add: divide_le_0_iff)
    with assms show False by simp
  qed
  let ?bp = "bitlen p" and ?bq = "bitlen q"
  let ?k = "bitlen p - bitlen q"
  from bitlen_bounds [OF p0] have p1: "2 ^ nat (?bp - 1) \<le> p" and p2: "p < 2 ^ nat ?bp"
    by simp_all
  from bitlen_bounds [OF q0] have q1: "2 ^ nat (?bq - 1) \<le> q" and q2: "q < 2 ^ nat ?bq"
    by simp_all
  have bp1: "1 \<le> ?bp" using p0 by (simp add: bitlen_alt_def)
  have bq1: "1 \<le> ?bq" using q0 by (simp add: bitlen_alt_def)
  have P1: "(2::rat) powi (?bp - 1) \<le> of_int p"
  proof -
    have "(2::rat) powi (?bp - 1) = 2 ^ nat (?bp - 1)" using bp1 by (simp add: power_int_nonneg_exp)
    also have "\<dots> = of_int (2 ^ nat (?bp - 1))" by simp
    also have "\<dots> \<le> of_int p" using p1 by (simp only: of_int_le_iff)
    finally show ?thesis .
  qed
  have P2: "of_int p < (2::rat) powi ?bp"
  proof -
    have "(of_int p :: rat) < of_int (2 ^ nat ?bp)" using p2 by (simp only: of_int_less_iff)
    also have "\<dots> = 2 ^ nat ?bp" by simp
    also have "\<dots> = 2 powi ?bp" using bp1 by (simp add: power_int_nonneg_exp)
    finally show ?thesis .
  qed
  have Q1: "(2::rat) powi (?bq - 1) \<le> of_int q"
  proof -
    have "(2::rat) powi (?bq - 1) = 2 ^ nat (?bq - 1)" using bq1 by (simp add: power_int_nonneg_exp)
    also have "\<dots> = of_int (2 ^ nat (?bq - 1))" by simp
    also have "\<dots> \<le> of_int q" using q1 by (simp only: of_int_le_iff)
    finally show ?thesis .
  qed
  have Q2: "of_int q < (2::rat) powi ?bq"
  proof -
    have "(of_int q :: rat) < of_int (2 ^ nat ?bq)" using q2 by (simp only: of_int_less_iff)
    also have "\<dots> = 2 ^ nat ?bq" by simp
    also have "\<dots> = 2 powi ?bq" using bq1 by (simp add: power_int_nonneg_exp)
    finally show ?thesis .
  qed
  have qpos: "(0::rat) < of_int q" using q0 by simp
  have lower: "(2::rat) powi (?k - 1) \<le> x"
  proof -
    have "(2::rat) powi (?k - 1) * of_int q \<le> 2 powi (?k - 1) * 2 powi ?bq"
      using Q2 by (intro mult_left_mono) simp_all
    also have "\<dots> = 2 powi (?bp - 1)"
      by (simp add: power_int_add [symmetric])
    also have "\<dots> \<le> of_int p" by (rule P1)
    finally have "(2::rat) powi (?k - 1) * of_int q \<le> of_int p" .
    then show ?thesis unfolding x using qpos by (simp add: pos_le_divide_eq)
  qed
  have upper: "x < (2::rat) powi (?k + 1)"
  proof -
    have "of_int p < (2::rat) powi ?bp" by (rule P2)
    also have "\<dots> = 2 powi (?k + 1) * 2 powi (?bq - 1)"
      by (simp add: power_int_add [symmetric])
    also have "\<dots> \<le> 2 powi (?k + 1) * of_int q"
      using Q1 by (intro mult_left_mono) simp_all
    finally have "of_int p < (2::rat) powi (?k + 1) * of_int q" .
    then show ?thesis unfolding x using qpos by (simp add: pos_divide_less_eq)
  qed
  have il: "ilog2 x = (if 2 powi ?k \<le> x then ?k else ?k - 1)"
    by (simp add: ilog2_def pq Let_def)
  show ?thesis
  proof (cases "2 powi ?k \<le> x")
    case True
    then show ?thesis using il upper by simp
  next
    case False
    then show ?thesis using il lower by simp
  qed
qed

lemma ilog2_unique:
  assumes "0 < x" and "2 powi e \<le> x" and "x < 2 powi (e + 1)"
  shows "ilog2 x = e"
proof -
  from ilog2_bounds [OF assms(1)]
  have a: "2 powi (ilog2 x) \<le> x" and b: "x < 2 powi (ilog2 x + 1)" by simp_all
  have "\<not> ilog2 x < e"
  proof
    assume "ilog2 x < e"
    then have "ilog2 x + 1 \<le> e" by simp
    then have "(2::rat) powi (ilog2 x + 1) \<le> 2 powi e" by (intro power_int_increasing) simp_all
    with assms(2) b show False by simp
  qed
  moreover have "\<not> e < ilog2 x"
  proof
    assume "e < ilog2 x"
    then have "e + 1 \<le> ilog2 x" by simp
    then have "(2::rat) powi (e + 1) \<le> 2 powi (ilog2 x)" by (intro power_int_increasing) simp_all
    with assms(3) a show False by simp
  qed
  ultimately show ?thesis by simp
qed

lemma round_half_even_near:
  assumes "\<bar>r - of_int m\<bar> < 1 / 2"
  shows "round_half_even r = m"
proof -
  from assms have "r - of_int m < 1 / 2" and "- (r - of_int m) < 1 / 2"
    by (simp_all only: abs_less_iff)
  then have lo: "of_int m - 1 / 2 < r" and hi: "r < of_int m + 1 / 2"
    by linarith+
  show ?thesis
  proof (cases "of_int m \<le> r")
    case True
    have "r < of_int m + 1" using hi by linarith
    with True have f: "\<lfloor>r\<rfloor> = m" by (intro floor_unique) simp_all
    have "r - of_int m < 1 / 2" using hi by linarith
    then show ?thesis using f by (simp add: round_half_even_def Let_def)
  next
    case False
    have "of_int (m - 1) \<le> r" using lo by simp
    moreover have "r < of_int (m - 1) + 1" using False by simp
    ultimately have f: "\<lfloor>r\<rfloor> = m - 1" by (intro floor_unique)
    have d: "r - of_int (m - 1) > 1 / 2" using lo by simp
    then have "\<not> r - of_int (m - 1) < 1 / 2" by linarith
    then show ?thesis using f d by (simp add: round_half_even_def Let_def)
  qed
qed

lemma round_double_pos:
  assumes "0 < x" and "2 powi e \<le> x" and "x < 2 powi (e + 1)"
    and "q = max (e - 52) (- 1074)"
    and "\<bar>x / 2 powi q - of_int m\<bar> < 1 / 2"
    and "v = of_int m * 2 powi q"
    and "v < (2::rat) powi 1024"
  shows "round_double x = Num v"
proof -
  have e: "ilog2 \<bar>x\<bar> = e" using assms(1-3) by (intro ilog2_unique) simp_all
  have m: "round_half_even (\<bar>x\<bar> / 2 powi q) = m"
    using assms(1,5) by (intro round_half_even_near) simp
  show ?thesis
    using assms(1,4,6,7) e m by (simp add: round_double_def Let_def)
qed

lemma round_double_neg:
  assumes "x < 0" and "2 powi e \<le> - x" and "- x < 2 powi (e + 1)"
    and "q = max (e - 52) (- 1074)"
    and "\<bar>- x / 2 powi q - of_int m\<bar> < 1 / 2"
    and "v = of_int m * 2 powi q"
    and "v < (2::rat) powi 1024"
  shows "round_double x = Num (- v)"
proof -
  have e: "ilog2 \<bar>x\<bar> = e" using assms(1-3) by (intro ilog2_unique) simp_all
  have m: "round_half_even (\<bar>x\<bar> / 2 powi q) = m"
    using assms(1,5) by (intro round_half_even_near) simp
  show ?thesis
    using assms(1,4,6,7) e m by (simp add: round_double_def Let_def)
qed

lemma round_half_even_ge_floor: "\<lfloor>r\<rfloor> \<le> round_half_even r"
  by (simp add: round_half_even_def Let_def)

text \<open>A double is a multiple of the smallest positive double.\<close>

lemma is_double_grid:
  assumes "is_double x"
  shows "\<exists>k::int. x = of_int k * 2 powi (- 1074)"
proof (cases "x = 0")
  case True
  then have "x = of_int 0 * 2 powi (- 1074)" by simp
  then show ?thesis by blast
next
  case False
  define q where "q = max (ilog2 \<bar>x\<bar> - 52) (- 1074)"
  define m where "m = round_half_even (\<bar>x\<bar> / 2 powi q)"
  define v :: rat where "v = of_int m * 2 powi q"
  have rd: "round_double x =
              (if v \<ge> 2 powi 1024 then (if x > 0 then PosInf else NegInf)
               else Num (if x > 0 then v else - v))"
    using False by (simp add: round_double_def Let_def q_def m_def v_def)
  from assms have "round_double x = Num x" by (simp add: is_double_def)
  with rd have xv: "x = (if x > 0 then v else - v)"
    by (auto split: if_splits)
  have q0: "0 \<le> q + 1074" by (simp add: q_def)
  have "(2::rat) powi (q + 1074 + (- 1074)) = 2 powi (q + 1074) * 2 powi (- 1074)"
    by (rule power_int_add) simp
  then have s: "(2::rat) powi q = 2 powi (q + 1074) * 2 powi (- 1074)"
    by (simp only: add.assoc add.right_inverse add_0_right)
  have n: "(2::rat) powi (q + 1074) = of_int (2 ^ nat (q + 1074))"
    using q0 by (simp add: power_int_nonneg_exp)
  have "v = of_int m * (of_int (2 ^ nat (q + 1074)) * 2 powi (- 1074))"
    unfolding v_def by (subst s) (simp only: n)
  then have "v = of_int (m * 2 ^ nat (q + 1074)) * 2 powi (- 1074)"
    by (simp only: of_int_mult mult.assoc)
  then have "x = of_int (m * 2 ^ nat (q + 1074)) * 2 powi (- 1074) \<or>
             x = of_int (- (m * 2 ^ nat (q + 1074))) * 2 powi (- 1074)"
    using xv by (auto split: if_splits)
  then show ?thesis by blast
qed

text \<open>A value of at least the size of the smallest positive double does not round to zero.\<close>

lemma round_double_nonzero:
  assumes "2 powi (- 1074) \<le> \<bar>x\<bar>"
  shows "round_double x \<noteq> Num 0"
proof -
  have pos: "(0::rat) < 2 powi (- 1074)" by simp
  with assms have a0: "0 < \<bar>x\<bar>" by linarith
  then have x0: "x \<noteq> 0" by simp
  define e where "e = ilog2 \<bar>x\<bar>"
  define q where "q = max (e - 52) (- 1074)"
  define m where "m = round_half_even (\<bar>x\<bar> / 2 powi q)"
  define v :: rat where "v = of_int m * 2 powi q"
  from ilog2_bounds [OF a0]
  have lo: "2 powi e \<le> \<bar>x\<bar>" and hi: "\<bar>x\<bar> < 2 powi (e + 1)" by (simp_all add: e_def)
  have "\<not> e + 1 \<le> - 1074"
  proof
    assume "e + 1 \<le> - 1074"
    then have "(2::rat) powi (e + 1) \<le> 2 powi (- 1074)" by (intro power_int_increasing) simp_all
    with hi assms show False by linarith
  qed
  then have "q \<le> e" by (simp add: q_def)
  then have "(2::rat) powi q \<le> 2 powi e" by (intro power_int_increasing) simp_all
  with lo have "(2::rat) powi q \<le> \<bar>x\<bar>" by linarith
  moreover have qpos: "(0::rat) < 2 powi q" by simp
  ultimately have "1 \<le> \<bar>x\<bar> / 2 powi q" by (simp add: pos_le_divide_eq)
  then have "1 \<le> \<lfloor>\<bar>x\<bar> / 2 powi q\<rfloor>" by (simp only: le_floor_iff of_int_1)
  then have "1 \<le> round_half_even (\<bar>x\<bar> / 2 powi q)"
    using round_half_even_ge_floor [of "\<bar>x\<bar> / 2 powi q"] by (rule order_trans)
  then have "1 \<le> m" by (simp only: m_def)
  then have "(0::rat) < of_int m" by simp
  then have v0: "0 < v" unfolding v_def using qpos by (rule mult_pos_pos)
  have rd: "round_double x =
              (if v \<ge> 2 powi 1024 then (if x > 0 then PosInf else NegInf)
               else Num (if x > 0 then v else - v))"
    using x0 by (simp add: round_double_def Let_def e_def q_def m_def v_def)
  show ?thesis unfolding rd using v0 by auto
qed

text \<open>The difference of two different doubles does not round to zero.\<close>

lemma double_difference_nonzero:
  assumes "is_double a" and "is_double b" and "a \<noteq> b"
  shows "round_double (a - b) \<noteq> Num 0"
proof -
  from is_double_grid [OF assms(1)] obtain ka :: int where a: "a = of_int ka * 2 powi (- 1074)"
    by blast
  from is_double_grid [OF assms(2)] obtain kb :: int where b: "b = of_int kb * 2 powi (- 1074)"
    by blast
  have pos: "(0::rat) < 2 powi (- 1074)" by simp
  have d: "a - b = of_int (ka - kb) * 2 powi (- 1074)"
    by (simp add: a b algebra_simps)
  have "ka \<noteq> kb" using assms(3) a b by auto
  then have "1 \<le> \<bar>ka - kb\<bar>" by simp
  then have "(1::rat) \<le> of_int \<bar>ka - kb\<bar>" by (simp only: of_int_1_le_iff)
  then have "(1::rat) \<le> \<bar>of_int (ka - kb)\<bar>" by simp
  then have "1 * (2::rat) powi (- 1074) \<le> \<bar>of_int (ka - kb)\<bar> * 2 powi (- 1074)"
    using pos by (intro mult_right_mono) simp_all
  also have "\<dots> = \<bar>a - b\<bar>" unfolding d by (simp add: abs_mult)
  finally have "2 powi (- 1074) \<le> \<bar>a - b\<bar>" by simp
  then show ?thesis by (rule round_double_nonzero)
qed

lemma round_double_zero: "round_double 0 = Num 0"
  by (simp add: round_double_def)

subsection \<open>The doubles of the examples\<close>

text \<open>The constants are the doubles of the decimal literals they are named after.\<close>

lemma double_0_98: "round_double (98 / 100) = n0_98"
  unfolding n0_98_def
  by (rule round_double_pos [where e = "-1" and q = "-53" and m = 8827055269646172]) simp_all

lemma double_0_99: "round_double (99 / 100) = n0_99"
  unfolding n0_99_def
  by (rule round_double_pos [where e = "-1" and q = "-53" and m = 8917127262193582]) simp_all

lemma double_0_05: "round_double (5 / 100) = n0_05"
  unfolding n0_05_def
  by (rule round_double_pos [where e = "-5" and q = "-57" and m = 7205759403792794]) simp_all

lemma double_1_03: "round_double (103 / 100) = n1_03"
  unfolding n1_03_def
  by (rule round_double_pos [where e = 0 and q = "-52" and m = 4638707616191611]) simp_all

lemma double_100_1: "round_double (1001 / 10) = n100_1"
  unfolding n100_1_def
  by (rule round_double_pos [where e = 6 and q = "-46" and m = 7043911292184166]) simp_all

lemma double_0_1: "round_double (1 / 10) = n0_1"
  unfolding n0_1_def
  by (rule round_double_pos [where e = "-4" and q = "-56" and m = 7205759403792794]) simp_all

lemma double_0_3: "round_double (3 / 10) = n0_3"
  unfolding n0_3_def
  by (rule round_double_pos [where e = "-2" and q = "-54" and m = 5404319552844595]) simp_all

lemma double_0_2: "round_double (2 / 10) = n0_2"
  unfolding n0_2_def
  by (rule round_double_pos [where e = "-3" and q = "-55" and m = 7205759403792794]) simp_all

lemma double_759_65: "round_double (75965 / 100) = n759_65"
  unfolding n759_65_def
  by (rule round_double_pos [where e = 9 and q = "-43" and m = 6681952064320307]) simp_all

lemma double_56_34: "round_double (5634 / 100) = n56_34"
  unfolding n56_34_def
  by (rule round_double_pos [where e = 5 and q = "-47" and m = 7929150093939180]) simp_all

lemma double_703_31: "round_double (70331 / 100) = n703_31"
  unfolding n703_31_def
  by (rule round_double_pos [where e = 9 and q = "-43" and m = 6186380183449108]) simp_all

text \<open>The double of the literal 0.02 is another one than 0.020000000000000018.\<close>

lemma double_0_02: "round_double (2 / 100) = Num (5764607523034235 / 288230376151711744)"
  by (rule round_double_pos [where e = "-6" and q = "-58" and m = 5764607523034235]) simp_all

lemma double_0_02_differs: "round_double (2 / 100) \<noteq> n0_020000000000000018"
  unfolding double_0_02 n0_020000000000000018_def by simp

text \<open>The subtractions of the examples.\<close>

lemma sub_0_98_1: "fsub n0_98 (Num 1) = Num (- (45035996273705 / 2251799813685248))"
  unfolding n0_98_def fsub.simps
  by (rule round_double_neg [where e = "-6" and q = "-58" and m = 5764607523034240]) simp_all

lemma sub_0_99_1: "fsub n0_99 (Num 1) = Num (- (45035996273705 / 4503599627370496))"
  unfolding n0_99_def fsub.simps
  by (rule round_double_neg [where e = "-7" and q = "-59" and m = 5764607523034240]) simp_all



lemma sub_100_1_0_1: "fsub n100_1 n0_1 = Num 100"
  unfolding n100_1_def n0_1_def fsub.simps
  by (rule round_double_pos [where e = 6 and q = "-46" and m = 7036874417766400]) simp_all

lemma sub_2_2_5: "fsub (Num 2) (Num (5 / 2)) = Num (- (1 / 2))"
  unfolding fsub.simps
  by (rule round_double_neg [where e = "-1" and q = "-53" and m = 4503599627370496]) simp_all

lemma sub_5_0: "fsub (Num 5) (Num 0) = Num 5"
  unfolding fsub.simps
  by (rule round_double_pos [where e = 2 and q = "-50" and m = 5629499534213120]) simp_all

text \<open>0.3 - 0.1 is 0.19999999999999998, not the double of 0.2.\<close>

lemma sub_0_3_0_1: "fsub n0_3 n0_1 = n0_19999999999999998"
  unfolding n0_3_def n0_1_def n0_19999999999999998_def fsub.simps
  by (rule round_double_pos [where e = "-3" and q = "-55" and m = 7205759403792793]) simp_all

lemma sub_0_3_0_1_differs: "fsub n0_3 n0_1 \<noteq> n0_2"
  unfolding sub_0_3_0_1 n0_19999999999999998_def n0_2_def by simp

text \<open>
  759.65 - 56.34 is 703.31: the difference of the two doubles lies above the double of
  703.31 and is rounded down to it.
\<close>

lemma sub_759_65_56_34: "fsub n759_65 n56_34 = n703_31"
  unfolding n759_65_def n56_34_def n703_31_def fsub.simps
  by (rule round_double_pos [where e = 9 and q = "-43" and m = 6186380183449108]) simp_all

lemma sub_759_65_56_34_exact:
  "(1546595045862277 / 2199023255552 :: rat) <
   6681952064320307 / 8796093022208 - 1982287523484795 / 35184372088832"
  by simp

lemma sub_same: "fsub (Num a) (Num a) = Num 0"
  by (simp add: round_double_zero)

section \<open>Properties of the cursor tracker\<close>

lemma getNewTransactions_unseeded:
  assumes "map_of lcs w = None \<or> map_of lcs w = Some []"
  shows "getNewTransactions sigs w lcs = ([], AList.update w (first_signature sigs) lcs)"
  using assms by (auto simp: getNewTransactions_def)

lemma empty_calls_unseeded:
  assumes "map_of lcs w = None \<or> map_of lcs w = Some []"
  shows "map_of (((\<lambda>l. snd (getNewTransactions [] w l)) ^^ n) lcs) w = None \<or>
         map_of (((\<lambda>l. snd (getNewTransactions [] w l)) ^^ n) lcs) w = Some []"
proof (induction n)
  case 0
  show ?case using assms by simp
next
  case (Suc n)
  show ?case
    using getNewTransactions_unseeded [OF Suc.IH, of "[]"]
    by (simp add: first_signature_def update_conv')
qed

text \<open>
  Claim C7. When an address has an established cursor and the newest item of the window
  carries the identifier stored as cursor, \<open>getNewTransactions\<close> returns the empty list
  and leaves the cursor map as it was; a second call on such a window does the same.
\<close>

theorem cursor_idempotent:
  assumes "map_of lcs w = Some c" and "c \<noteq> []"
    and "signature s1 = c" and "signature s2 = c"
  shows "getNewTransactions (s1 # rest1) w lcs = ([], lcs) \<and>
         getNewTransactions (s2 # rest2) w (snd (getNewTransactions (s1 # rest1) w lcs)) = ([], lcs)"
  using assms by (simp add: getNewTransactions_def)

theorem cursor_idempotent_witness:
  "map_of ex_cursors ''walletA'' = Some ''sig9'' \<and> ''sig9'' \<noteq> [] \<and>
   signature (hd ex_window) = ''sig9'' \<and>
   getNewTransactions ex_window ''walletA'' ex_cursors = ([], ex_cursors) \<and>
   getNewTransactions ex_window ''walletA''
     (snd (getNewTransactions ex_window ''walletA'' ex_cursors)) = ([], ex_cursors)"
proof -
  have h1: "map_of ex_cursors ''walletA'' = Some ''sig9''" by (simp add: ex_cursors_def)
  have h2: "''sig9'' \<noteq> []" by simp
  have h3: "signature \<lparr>signature = ''sig9'', slot = 9\<rparr> = ''sig9''" by simp
  have w: "ex_window = \<lparr>signature = ''sig9'', slot = 9\<rparr> # [\<lparr>signature = ''sig8'', slot = 8\<rparr>]"
    by (simp add: ex_window_def)
  show ?thesis
    using cursor_idempotent [OF h1 h2 h3 h3, of "[\<lparr>signature = ''sig8'', slot = 8\<rparr>]" "[\<lparr>signature = ''sig8'', slot = 8\<rparr>]"] h1
    unfolding w by simp
qed

text \<open>
  Claim C10. For an address without a cursor, a call on an empty window stores the empty
  string as cursor. The empty string is read as no cursor: after any number of calls on
  an empty window the next such call again returns the empty list and stores the empty
  string, and a call on a non-empty window returns the empty list and stores the
  identifier of the newest item.
\<close>

theorem unseeded_cursor_stays_unseeded:
  assumes "map_of lcs w = None"
  shows "getNewTransactions [] w lcs = ([], AList.update w [] lcs) \<and>
         (\<forall>n. let l = ((\<lambda>l. snd (getNewTransactions [] w l)) ^^ n) lcs
              in getNewTransactions [] w l = ([], AList.update w [] l) \<and>
                 (\<forall>s rest. getNewTransactions (s # rest) w l =
                             ([], AList.update w (signature s) l)))"
proof -
  have u: "map_of lcs w = None \<or> map_of lcs w = Some []" using assms by simp
  show ?thesis
    using getNewTransactions_unseeded [OF u, of "[]"]
      getNewTransactions_unseeded [OF empty_calls_unseeded [OF u]]
    by (simp add: first_signature_def Let_def)
qed

theorem unseeded_witness:
  "map_of ([] :: cursors) ''walletA'' = None \<and>
   getNewTransactions [] ''walletA'' [] = ([], [(''walletA'', [])]) \<and>
   getNewTransactions [] ''walletA'' [(''walletA'', [])] = ([], [(''walletA'', [])]) \<and>
   getNewTransactions ex_window ''walletA'' [(''walletA'', [])] = ([], [(''walletA'', ''sig9'')])"
proof -
  have h: "map_of ([] :: cursors) ''walletA'' = None" by simp
  have one: "((\<lambda>l. snd (getNewTransactions [] ''walletA'' l)) ^^ 1) [] = [(''walletA'', [])]"
    by (simp add: getNewTransactions_def first_signature_def)
  have w: "ex_window = \<lparr>signature = ''sig9'', slot = 9\<rparr> # [\<lparr>signature = ''sig8'', slot = 8\<rparr>]"
    by (simp add: ex_window_def)
  from unseeded_cursor_stays_unseeded [OF h]
  have a: "getNewTransactions [] ''walletA'' [] = ([], AList.update ''walletA'' [] [])"
    and b: "\<forall>n. let l = ((\<lambda>l. snd (getNewTransactions [] ''walletA'' l)) ^^ n) []
              in getNewTransactions [] ''walletA'' l = ([], AList.update ''walletA'' [] l) \<and>
                 (\<forall>s rest. getNewTransactions (s # rest) ''walletA'' l =
                             ([], AList.update ''walletA'' (signature s) l))"
    by blast+
  from b have "let l = ((\<lambda>l. snd (getNewTransactions [] ''walletA'' l)) ^^ 1) []
              in getNewTransactions [] ''walletA'' l = ([], AList.update ''walletA'' [] l) \<and>
                 (\<forall>s rest. getNewTransactions (s # rest) ''walletA'' l =
                             ([], AList.update ''walletA'' (signature s) l))" by (rule spec)
  then have c: "getNewTransactions [] ''walletA'' [(''walletA'', [])] = ([], AList.update ''walletA'' [] [(''walletA'', [])])"
    and d: "\<forall>s rest. getNewTransactions (s # rest) ''walletA'' [(''walletA'', [])] =
                             ([], AList.update ''walletA'' (signature s) [(''walletA'', [])])"
    unfolding one Let_def by blast+
  show ?thesis using h a c d unfolding w by simp
qed

section \<open>Properties of the balance differ\<close>

lemma set_js_set: "set (js_set xs) = set xs"
  by (simp add: js_set_def)

lemma map_of_fold_token_step:
  "map_of (fold (token_step prev cur) mints acc) mint =
     (if mint \<in> set mints \<and>
         \<not> strict_eq (fsub (amount_of cur mint) (amount_of prev mint)) (Num 0)
      then Some \<lparr>change = fsub (amount_of cur mint) (amount_of prev mint),
                 previousAmount = amount_of prev mint,
                 currentAmount = amount_of cur mint,
                 tc_decimals = nat_or (decimals_of cur mint) (nat_or (decimals_of prev mint) 9)\<rparr>
      else map_of acc mint)"
proof (induction mints arbitrary: acc)
  case Nil
  show ?case by simp
next
  case (Cons m ms)
  have step: "map_of (token_step prev cur m acc) mint =
     (if mint = m \<and> \<not> strict_eq (fsub (amount_of cur mint) (amount_of prev mint)) (Num 0)
      then Some \<lparr>change = fsub (amount_of cur mint) (amount_of prev mint),
                 previousAmount = amount_of prev mint,
                 currentAmount = amount_of cur mint,
                 tc_decimals = nat_or (decimals_of cur mint) (nat_or (decimals_of prev mint) 9)\<rparr>
      else map_of acc mint)"
    by (auto simp: token_step_def Let_def update_conv')
  have "map_of (fold (token_step prev cur) (m # ms) acc) mint =
        map_of (fold (token_step prev cur) ms (token_step prev cur m acc)) mint"
    by simp
  then show ?case
    unfolding Cons.IH step by auto
qed

lemma map_of_compareTokenBalances:
  "map_of (compareTokenBalances prev cur) mint =
     (if (mint \<in> fst ` set prev \<or> mint \<in> fst ` set cur) \<and>
         \<not> strict_eq (fsub (amount_of cur mint) (amount_of prev mint)) (Num 0)
      then Some \<lparr>change = fsub (amount_of cur mint) (amount_of prev mint),
                 previousAmount = amount_of prev mint,
                 currentAmount = amount_of cur mint,
                 tc_decimals = nat_or (decimals_of cur mint) (nat_or (decimals_of prev mint) 9)\<rparr>
      else None)"
  by (simp add: compareTokenBalances_def map_of_fold_token_step set_js_set)

lemma num_or_Num: "num_or (Num a) (Num 0) = Num a"
  by (simp add: num_or_def truthy_def)

lemma amount_of_Num:
  "map_of tokens mint = Some t \<Longrightarrow> amount t = Num a \<Longrightarrow> amount_of tokens mint = Num a"
  by (simp add: amount_of_def num_or_Num)

lemma ex_amounts_of:
  "amount_of (tokenBalances ex_prev) ''M1'' = Num 10"
  "amount_of (tokenBalances ex_cur) ''M1'' = Num 10"
  "amount_of (tokenBalances ex_prev) ''M2'' = Num 0"
  "amount_of (tokenBalances ex_cur) ''M2'' = Num 5"
  by (simp_all add: amount_of_def num_or_Num ex_prev_def ex_cur_def)

lemma is_double_examples: "is_double 0" "is_double 5" "is_double (2 - 5 / 2)"
proof -
  show "is_double 0" by (simp add: is_double_def round_double_zero)
  show "is_double 5" using sub_5_0 by (simp add: is_double_def)
  show "is_double (2 - 5 / 2)" using sub_2_2_5 by (simp add: is_double_def)
qed

text \<open>
  Claim C8. For an address without a stored snapshot, \<open>compareBalances\<close> sets the
  first-observation flag and \<open>hasSignificantChanges\<close> is false of the result, whatever
  the current snapshot is.
\<close>

theorem first_check:
  assumes "getPreviousBalances bs w = None"
  shows "isFirstCheck (compareBalances bs w cur) \<and>
         \<not> hasSignificantChanges (compareBalances bs w cur)"
  using assms by (simp add: compareBalances_def hasSignificantChanges_def strict_eq_def)

theorem first_check_witness:
  "getPreviousBalances ex_bs_empty ''walletA'' = None \<and>
   isFirstCheck (compareBalances ex_bs_empty ''walletA'' ex_cur) \<and>
   \<not> hasSignificantChanges (compareBalances ex_bs_empty ''walletA'' ex_cur)"
proof -
  have h: "getPreviousBalances ex_bs_empty ''walletA'' = None"
    by (simp add: getPreviousBalances_def ex_bs_empty_def)
  show ?thesis using first_check [OF h, of ex_cur] h by simp
qed

text \<open>
  Claim C4, as stated, fails: the native change is the result of one subtraction of
  doubles, which is rounded. Here the wallet held 0.1 and holds 100.1; the change
  reported is 100, and the difference of the two balances is another number.
\<close>

theorem native_change_is_rounded:
  "getPreviousBalances ex_bs_tenth ''walletB'' = Some ex_prev_tenth \<and>
   solBalance ex_prev_tenth = Num (3602879701896397 / 36028797018963968) \<and>
   solBalance ex_cur_hundred = Num (3521955646092083 / 35184372088832) \<and>
   solChange (compareBalances ex_bs_tenth ''walletB'' ex_cur_hundred) = Num 100 \<and>
   3521955646092083 / 35184372088832 - 3602879701896397 / 36028797018963968 \<noteq> (100 :: rat)"
proof -
  have h: "getPreviousBalances ex_bs_tenth ''walletB'' = Some ex_prev_tenth"
    by (simp add: getPreviousBalances_def ex_bs_tenth_def)
  have p: "solBalance ex_prev_tenth = n0_1" by (simp add: ex_prev_tenth_def)
  have c: "solBalance ex_cur_hundred = n100_1" by (simp add: ex_cur_hundred_def)
  have t: "truthy n0_1" by (simp add: truthy_def n0_1_def)
  have s: "solChange (compareBalances ex_bs_tenth ''walletB'' ex_cur_hundred) = Num 100"
    using h by (simp add: compareBalances_def p c num_or_def t sub_100_1_0_1)
  have d: "3521955646092083 / 35184372088832 - 3602879701896397 / 36028797018963968 \<noteq> (100 :: rat)"
    by simp
  show ?thesis using h p c s d by (simp add: n0_1_def n100_1_def)
qed

text \<open>
  Claim C4, amended. When a previous snapshot is stored, the native change is the double
  that the subtraction of the previous native balance from the current one gives: for
  finite balances the double nearest to their difference, which is their difference when
  that is a double. An asset with the same finite amount in both snapshots has no entry in
  the fungible changes; every entry belongs to an asset of one of the two snapshots and
  carries the rounded difference of its amounts, which is not zero; every asset of the
  two snapshots whose rounded difference is not zero has an entry, and that is every
  asset whose finite amounts differ.
\<close>

theorem compareBalances_diff:
  assumes "getPreviousBalances bs w = Some prev"
  shows "solChange (compareBalances bs w cur) =
           fsub (solBalance cur) (num_or (solBalance prev) (Num 0)) \<and>
         (\<forall>c p. solBalance cur = Num c \<and> solBalance prev = Num p \<longrightarrow>
                 solChange (compareBalances bs w cur) = round_double (c - p)) \<and>
         (\<forall>c p. solBalance cur = Num c \<and> solBalance prev = Num p \<and> is_double (c - p) \<longrightarrow>
                 solChange (compareBalances bs w cur) = Num (c - p)) \<and>
         (\<forall>mint tp tc a. map_of (tokenBalances prev) mint = Some tp \<and>
                        map_of (tokenBalances cur) mint = Some tc \<and>
                        amount tp = Num a \<and> amount tc = Num a \<longrightarrow>
                        map_of (tokenChanges (compareBalances bs w cur)) mint = None) \<and>
         (\<forall>mint d. map_of (tokenChanges (compareBalances bs w cur)) mint = Some d \<longrightarrow>
                    (mint \<in> fst ` set (tokenBalances prev) \<or> mint \<in> fst ` set (tokenBalances cur)) \<and>
                    \<not> strict_eq (change d) (Num 0) \<and>
                    change d =
                      fsub (amount_of (tokenBalances cur) mint) (amount_of (tokenBalances prev) mint)) \<and>
         (\<forall>mint. (mint \<in> fst ` set (tokenBalances prev) \<or> mint \<in> fst ` set (tokenBalances cur)) \<and>
                  \<not> strict_eq (fsub (amount_of (tokenBalances cur) mint)
                                 (amount_of (tokenBalances prev) mint)) (Num 0) \<longrightarrow>
                  map_of (tokenChanges (compareBalances bs w cur)) mint \<noteq> None) \<and>
         (\<forall>mint a b. (mint \<in> fst ` set (tokenBalances prev) \<or> mint \<in> fst ` set (tokenBalances cur)) \<and>
                  amount_of (tokenBalances cur) mint = Num a \<and>
                  amount_of (tokenBalances prev) mint = Num b \<and>
                  is_double a \<and> is_double b \<and> a \<noteq> b \<longrightarrow>
                  map_of (tokenChanges (compareBalances bs w cur)) mint \<noteq> None)"
proof -
  have cb: "compareBalances bs w cur =
      \<lparr>isFirstCheck = False,
       solChange = fsub (solBalance cur) (num_or (solBalance prev) (Num 0)),
       tokenChanges = compareTokenBalances (tokenBalances prev) (tokenBalances cur),
       nftChanges = compareNFTs (nftAssets prev) (nftAssets cur),
       previousTimestamp = Some (timestamp prev)\<rparr>"
    using assms by (simp add: compareBalances_def)
  have sol: "solChange (compareBalances bs w cur) =
               fsub (solBalance cur) (num_or (solBalance prev) (Num 0))"
    by (simp add: cb)
  have fin: "\<forall>c p. solBalance cur = Num c \<and> solBalance prev = Num p \<longrightarrow>
                 solChange (compareBalances bs w cur) = round_double (c - p)"
    by (simp add: sol num_or_Num)
  have exact: "\<forall>c p. solBalance cur = Num c \<and> solBalance prev = Num p \<and> is_double (c - p) \<longrightarrow>
                 solChange (compareBalances bs w cur) = Num (c - p)"
    by (simp add: sol num_or_Num is_double_def)
  have tc: "tokenChanges (compareBalances bs w cur) =
            compareTokenBalances (tokenBalances prev) (tokenBalances cur)"
    by (simp add: cb)
  have same: "\<forall>mint tp tc a. map_of (tokenBalances prev) mint = Some tp \<and>
                        map_of (tokenBalances cur) mint = Some tc \<and>
                        amount tp = Num a \<and> amount tc = Num a \<longrightarrow>
                        map_of (tokenChanges (compareBalances bs w cur)) mint = None"
    by (simp add: tc map_of_compareTokenBalances amount_of_Num round_double_zero strict_eq_def)
  have only: "\<forall>mint d. map_of (tokenChanges (compareBalances bs w cur)) mint = Some d \<longrightarrow>
                    (mint \<in> fst ` set (tokenBalances prev) \<or> mint \<in> fst ` set (tokenBalances cur)) \<and>
                    \<not> strict_eq (change d) (Num 0) \<and>
                    change d =
                      fsub (amount_of (tokenBalances cur) mint) (amount_of (tokenBalances prev) mint)"
    by (auto simp: tc map_of_compareTokenBalances split: if_splits)
  have all: "\<forall>mint. (mint \<in> fst ` set (tokenBalances prev) \<or> mint \<in> fst ` set (tokenBalances cur)) \<and>
                  \<not> strict_eq (fsub (amount_of (tokenBalances cur) mint)
                                 (amount_of (tokenBalances prev) mint)) (Num 0) \<longrightarrow>
                  map_of (tokenChanges (compareBalances bs w cur)) mint \<noteq> None"
    by (simp add: tc map_of_compareTokenBalances)
  have differ: "\<forall>mint a b. (mint \<in> fst ` set (tokenBalances prev) \<or> mint \<in> fst ` set (tokenBalances cur)) \<and>
                  amount_of (tokenBalances cur) mint = Num a \<and>
                  amount_of (tokenBalances prev) mint = Num b \<and>
                  is_double a \<and> is_double b \<and> a \<noteq> b \<longrightarrow>
                  map_of (tokenChanges (compareBalances bs w cur)) mint \<noteq> None"
  proof (intro allI impI)
    fix mint a b
    assume h: "(mint \<in> fst ` set (tokenBalances prev) \<or> mint \<in> fst ` set (tokenBalances cur)) \<and>
                  amount_of (tokenBalances cur) mint = Num a \<and>
                  amount_of (tokenBalances prev) mint = Num b \<and>
                  is_double a \<and> is_double b \<and> a \<noteq> b"
    then have "round_double (a - b) \<noteq> Num 0" by (intro double_difference_nonzero) simp_all
    then have "\<not> strict_eq (fsub (amount_of (tokenBalances cur) mint)
                                 (amount_of (tokenBalances prev) mint)) (Num 0)"
      using h by (simp add: strict_eq_def)
    with h all show "map_of (tokenChanges (compareBalances bs w cur)) mint \<noteq> None" by blast
  qed
  show ?thesis using sol fin exact same only all differ by blast
qed

theorem compareBalances_diff_witness:
  "getPreviousBalances ex_bs ''walletA'' = Some ex_prev \<and>
   solBalance ex_cur = Num 2 \<and> solBalance ex_prev = Num (5 / 2) \<and> is_double (2 - 5 / 2) \<and>
   solChange (compareBalances ex_bs ''walletA'' ex_cur) = Num (- (1 / 2)) \<and>
   map_of (tokenChanges (compareBalances ex_bs ''walletA'' ex_cur)) ''M1'' = None \<and>
   ''M2'' \<in> fst ` set (tokenBalances ex_cur) \<and>
   amount_of (tokenBalances ex_cur) ''M2'' = Num 5 \<and>
   amount_of (tokenBalances ex_prev) ''M2'' = Num 0 \<and>
   (\<exists>d. map_of (tokenChanges (compareBalances ex_bs ''walletA'' ex_cur)) ''M2'' = Some d \<and>
        change d = Num 5)"
proof -
  have h: "getPreviousBalances ex_bs ''walletA'' = Some ex_prev"
    by (simp add: getPreviousBalances_def ex_bs_def)
  have a1: "map_of (tokenBalances ex_prev) ''M1'' =
              Some \<lparr>amount = Num 10, decimals = 6, tb_name = None, tb_symbol = None\<rparr>"
    by (simp add: ex_prev_def)
  have a2: "map_of (tokenBalances ex_cur) ''M1'' =
              Some \<lparr>amount = Num 10, decimals = 6, tb_name = None, tb_symbol = None\<rparr>"
    by (simp add: ex_cur_def)
  have a3: "''M2'' \<in> fst ` set (tokenBalances ex_cur)"
    by (simp add: ex_cur_def)
  have s: "solBalance ex_cur = Num 2" "solBalance ex_prev = Num (5 / 2)"
    by (simp_all add: ex_cur_def ex_prev_def)
  note T = compareBalances_diff [OF h, of ex_cur]
  note exact = T [THEN conjunct2, THEN conjunct2, THEN conjunct1, rule_format]
  note same = T [THEN conjunct2, THEN conjunct2, THEN conjunct2, THEN conjunct1, rule_format]
  note only = T [THEN conjunct2, THEN conjunct2, THEN conjunct2, THEN conjunct2, THEN conjunct1,
      rule_format]
  note differ = T [THEN conjunct2, THEN conjunct2, THEN conjunct2, THEN conjunct2,
      THEN conjunct2, THEN conjunct2, rule_format]
  have sc: "solChange (compareBalances ex_bs ''walletA'' ex_cur) = Num (- (1 / 2))"
    using exact [of 2 "5 / 2"] s is_double_examples(3) by simp
  have m1: "map_of (tokenChanges (compareBalances ex_bs ''walletA'' ex_cur)) ''M1'' = None"
    using same [of "''M1''" _ _ 10] a1 a2 by simp
  have m2: "map_of (tokenChanges (compareBalances ex_bs ''walletA'' ex_cur)) ''M2'' \<noteq> None"
    using differ [of "''M2''" 5 0] a3 ex_amounts_of(3,4) is_double_examples(1,2) by simp
  then obtain d where d: "map_of (tokenChanges (compareBalances ex_bs ''walletA'' ex_cur)) ''M2'' = Some d"
    by blast
  from only [OF d] have "change d =
      fsub (amount_of (tokenBalances ex_cur) ''M2'') (amount_of (tokenBalances ex_prev) ''M2'')"
    by simp
  then have "change d = Num 5" by (simp only: ex_amounts_of sub_5_0)
  with d have m2': "\<exists>d. map_of (tokenChanges (compareBalances ex_bs ''walletA'' ex_cur)) ''M2'' = Some d \<and>
        change d = Num 5" by blast
  show ?thesis
    using h s is_double_examples(3) sc m1 a3 ex_amounts_of(3,4) m2' by (intro conjI)
qed

section \<open>Properties of the matcher\<close>

lemma find_filter_conj: "find P (filter Q xs) = find (\<lambda>x. Q x \<and> P x) xs"
  by (induction xs) auto


lemma find_SomeD:
  assumes "find P xs = Some x"
  shows "P x \<and> (\<exists>pre post. xs = pre @ x # post \<and> (\<forall>y \<in> set pre. \<not> P y))"
  using assms
proof (induction xs)
  case Nil
  then show ?case by simp
next
  case (Cons a xs)
  show ?case
  proof (cases "P a")
    case True
    with Cons.prems have "a = x" by simp
    have "a # xs = [] @ x # xs" using \<open>a = x\<close> by simp
    moreover have "\<forall>y \<in> set []. \<not> P y" by simp
    moreover have "P x" using True \<open>a = x\<close> by simp
    ultimately show ?thesis by blast
  next
    case False
    with Cons.prems have "find P xs = Some x" by simp
    from Cons.IH [OF this] obtain pre post where
      px: "P x" and xs: "xs = pre @ x # post" and pre: "\<forall>y \<in> set pre. \<not> P y"
      by blast
    have "a # xs = (a # pre) @ x # post" using xs by simp
    moreover have "\<forall>y \<in> set (a # pre). \<not> P y" using pre False by simp
    ultimately show ?thesis using px by blast
  qed
qed

lemma findMatching_exact:
  assumes "find (\<lambda>p. in_scope w mint p \<and> strict_eq (expectedAmount p) amt)
             (map snd (expectedPayments st)) = Some p"
  shows "findMatchingExpectedPayment st w amt mint =
           Some \<lparr>expectedPayment = p, actualAmount = amt, variance = Num 0,
                 isExactMatch = True, isWithinTolerance = True\<rparr>"
  using assms by (simp add: findMatchingExpectedPayment_def find_filter_conj)

lemma findMatching_tolerance:
  assumes "find (\<lambda>p. in_scope w mint p \<and> strict_eq (expectedAmount p) amt)
             (map snd (expectedPayments st)) = None"
    and "find (\<lambda>p. in_scope w mint p \<and> within_tolerance amt p) (map snd (expectedPayments st)) = Some p"
  shows "findMatchingExpectedPayment st w amt mint =
           Some \<lparr>expectedPayment = p, actualAmount = amt,
                 variance = fabs (fsub (expectedAmount p) amt),
                 isExactMatch = False, isWithinTolerance = True\<rparr>"
  using assms by (simp add: findMatchingExpectedPayment_def find_filter_conj)

lemma findMatching_none:
  assumes "find (\<lambda>p. in_scope w mint p \<and> strict_eq (expectedAmount p) amt)
             (map snd (expectedPayments st)) = None"
    and "find (\<lambda>p. in_scope w mint p \<and> within_tolerance amt p) (map snd (expectedPayments st)) = None"
  shows "findMatchingExpectedPayment st w amt mint = None"
  using assms by (simp add: findMatchingExpectedPayment_def find_filter_conj)

lemma find_conj_SomeD:
  assumes "find (\<lambda>p. Q p \<and> P p) xs = Some x"
  shows "x \<in> set xs \<and> Q x"
proof -
  from find_SomeD [OF assms] obtain pre post where "Q x" and "xs = pre @ x # post"
    by blast
  then show ?thesis by simp
qed

lemma findMatching_SomeD:
  assumes "findMatchingExpectedPayment st w a mint = Some m"
  shows "expectedPayment m \<in> snd ` set (expectedPayments st) \<and>
         status (expectedPayment m) = Pending"
proof -
  let ?xs = "map snd (expectedPayments st)"
  let ?E = "\<lambda>p. in_scope w mint p \<and> strict_eq (expectedAmount p) a"
  let ?T = "\<lambda>p. in_scope w mint p \<and> within_tolerance a p"
  have "expectedPayment m \<in> set ?xs \<and> in_scope w mint (expectedPayment m)"
  proof (cases "find ?E ?xs")
    case (Some p)
    from findMatching_exact [OF Some] assms have "expectedPayment m = p" by auto
    with find_conj_SomeD [OF Some] show ?thesis by simp
  next
    case None
    show ?thesis
    proof (cases "find ?T ?xs")
      case (Some p)
      from findMatching_tolerance [OF None Some] assms have "expectedPayment m = p" by auto
      with find_conj_SomeD [OF Some] show ?thesis by simp
    next
      case None2: None
      from findMatching_none [OF None None2] assms show ?thesis by simp
    qed
  qed
  then show ?thesis by (simp add: in_scope_def)
qed

lemmas ex_defs = ex_sys_def ex_empty_def ex_exact_def ex_tol_def ex_tol2_def ex_due_def
  ex_summary_def ex_co_quiet_def ex_co_tx_def add_all_def

lemmas op_defs = addExpectedPayment_def saveToFile_def write_disk_def
  checkExpectedPaymentMatches_def
  match_and_handle_def findMatchingExpectedPayment_def in_scope_def within_tolerance_def
  has_tolerance_def handleExpectedPaymentMatch_def updateExpectedPaymentStatus_def
  fresh_id_def addPaymentNote_def getExpectedPaymentById_def strict_eq_def fgt_def Let_def

lemma ex_store_tol_exact:
  "expectedPayments (add_all [ex_tol, ex_exact] ex_empty) = [(''t1'', ex_tol), (''e1'', ex_exact)]"
  by (simp add: add_all_def addExpectedPayment_def saveToFile_def ex_sys_def ex_empty_def
      ex_tol_def ex_exact_def)

lemma ex_store_exact_tol:
  "expectedPayments (add_all [ex_exact, ex_tol] ex_empty) = [(''e1'', ex_exact), (''t1'', ex_tol)]"
  by (simp add: add_all_def addExpectedPayment_def saveToFile_def ex_sys_def ex_empty_def
      ex_tol_def ex_exact_def)



lemma ex_scopes:
  "in_scope ''walletA'' None ex_exact" "in_scope ''walletA'' None ex_tol"
  "in_scope ''walletA'' None ex_tol2" "in_scope ''walletA'' None ex_tol3"
  by (simp_all add: in_scope_def ex_exact_def ex_tol_def ex_tol2_def ex_tol3_def)

lemma ex_expected:
  "expectedAmount ex_exact = Num 1" "expectedAmount ex_tol = n0_98"
  "expectedAmount ex_tol2 = n0_99" "expectedAmount ex_tol3 = Num 1"
  by (simp_all add: ex_exact_def ex_tol_def ex_tol2_def ex_tol3_def)

lemma ex_has_tolerance:
  "has_tolerance ex_tol" "has_tolerance ex_tol2" "has_tolerance ex_tol3"
  "\<not> has_tolerance ex_exact"
  by (simp_all add: has_tolerance_def truthy_def fgt_def n0_05_def
      ex_exact_def ex_tol_def ex_tol2_def ex_tol3_def)

lemma ex_tolerances:
  "tolerance ex_tol = Some n0_05" "tolerance ex_tol2 = Some n0_05"
  "tolerance ex_tol3 = Some n0_05"
  by (simp_all add: ex_tol_def ex_tol2_def ex_tol3_def)

text \<open>
  What the test of the tolerance loop gives at the observed amount 1: both 0.98 and 0.99
  are within 0.05 of it.
\<close>

lemma ex_within_1:
  "within_tolerance (Num 1) ex_tol" "within_tolerance (Num 1) ex_tol2"
  "\<not> within_tolerance (Num 1) ex_exact"
  by (simp_all add: within_tolerance_def ex_has_tolerance ex_tolerances ex_expected
      sub_0_98_1 sub_0_99_1 n0_05_def)


text \<open>
  A payment of 759.65 with tolerance 703.31 at the observed amount 56.34: the rounded
  difference is the tolerance, so the payment is inside its band.
\<close>

lemma ex_within_edge: "within_tolerance n56_34 ex_edge"
  by (simp add: within_tolerance_def has_tolerance_def truthy_def fgt_def ex_edge_def
      sub_759_65_56_34 n703_31_def)

lemma ex_not_exact:
  "\<not> strict_eq (expectedAmount ex_tol) (Num 1)" "\<not> strict_eq (expectedAmount ex_tol2) (Num 1)"
  "\<not> strict_eq (expectedAmount ex_tol) n1_03" "\<not> strict_eq (expectedAmount ex_tol3) n1_03"
  by (simp_all add: strict_eq_def ex_expected n0_98_def n0_99_def n1_03_def)

text \<open>
  Claim C2. When the store holds a pending payment of the wallet and asset whose target
  amount equals the observed amount, \<open>findMatchingExpectedPayment\<close> returns an exact
  match with variance 0: the first such payment in insertion order, which is that
  payment when no other one has the same target. Payments that qualify by their
  tolerance only are never returned then, wherever they stand in the store.
\<close>

theorem exact_match_precedence:
  assumes "(k, e) \<in> set (expectedPayments st)"
    and "in_scope w mint e" and "strict_eq (expectedAmount e) amt"
  shows "\<exists>m. findMatchingExpectedPayment st w amt mint = Some m \<and>
             isExactMatch m \<and> variance m = Num 0 \<and> actualAmount m = amt \<and>
             in_scope w mint (expectedPayment m) \<and>
             strict_eq (expectedAmount (expectedPayment m)) amt \<and>
             expectedAmount (expectedPayment m) = amt \<and>
             (\<exists>pre post. map snd (expectedPayments st) = pre @ expectedPayment m # post \<and>
                (\<forall>p \<in> set pre. \<not> (in_scope w mint p \<and> strict_eq (expectedAmount p) amt))) \<and>
             ((\<forall>p \<in> snd ` set (expectedPayments st).
                  in_scope w mint p \<and> strict_eq (expectedAmount p) amt \<longrightarrow> p = e) \<longrightarrow>
              expectedPayment m = e)"
proof -
  let ?P = "\<lambda>p. in_scope w mint p \<and> strict_eq (expectedAmount p) amt"
  have "e \<in> set (map snd (expectedPayments st))" using assms(1) by force
  then have "find ?P (map snd (expectedPayments st)) \<noteq> None"
    using assms(2,3) by (auto simp: find_None_iff)
  then obtain p where f: "find ?P (map snd (expectedPayments st)) = Some p" by blast
  from find_SomeD [OF f] obtain pre post where
    p: "?P p" and sp: "map snd (expectedPayments st) = pre @ p # post"
    and pre: "\<forall>y \<in> set pre. \<not> ?P y" by blast
  have peq: "expectedAmount p = amt" using p by (simp add: strict_eq_def)
  have pin: "p \<in> snd ` set (expectedPayments st)"
  proof -
    have "p \<in> set (map snd (expectedPayments st))" unfolding sp by simp
    then show ?thesis by simp
  qed
  let ?m = "\<lparr>expectedPayment = p, actualAmount = amt, variance = Num 0,
             isExactMatch = True, isWithinTolerance = True\<rparr>"
  have "findMatchingExpectedPayment st w amt mint = Some ?m"
    by (rule findMatching_exact [OF f])
  moreover have "\<exists>pre post. map snd (expectedPayments st) = pre @ expectedPayment ?m # post \<and>
                (\<forall>p \<in> set pre. \<not> (in_scope w mint p \<and> strict_eq (expectedAmount p) amt))"
    using sp pre by auto
  moreover have "(\<forall>q \<in> snd ` set (expectedPayments st).
                  in_scope w mint q \<and> strict_eq (expectedAmount q) amt \<longrightarrow> q = e) \<longrightarrow>
              expectedPayment ?m = e"
    using p pin by auto
  ultimately show ?thesis using p peq by (intro exI [of _ ?m]) simp
qed

theorem exact_match_precedence_witness:
  "(''e1'', ex_exact) \<in> set (expectedPayments (add_all [ex_tol, ex_exact] ex_empty)) \<and>
   (''e1'', ex_exact) \<in> set (expectedPayments (add_all [ex_exact, ex_tol] ex_empty)) \<and>
   in_scope ''walletA'' None ex_exact \<and> strict_eq (expectedAmount ex_exact) (Num 1) \<and>
   in_scope ''walletA'' None ex_tol \<and> within_tolerance (Num 1) ex_tol \<and>
   (\<exists>m. findMatchingExpectedPayment (add_all [ex_tol, ex_exact] ex_empty) ''walletA'' (Num 1) None = Some m \<and>
        expectedPayment m = ex_exact \<and> isExactMatch m \<and> variance m = Num 0) \<and>
   (\<exists>m. findMatchingExpectedPayment (add_all [ex_exact, ex_tol] ex_empty) ''walletA'' (Num 1) None = Some m \<and>
        expectedPayment m = ex_exact \<and> isExactMatch m \<and> variance m = Num 0)"
proof -
  have in1: "(''e1'', ex_exact) \<in> set (expectedPayments (add_all [ex_tol, ex_exact] ex_empty))"
    by (simp add: ex_store_tol_exact)
  have in2: "(''e1'', ex_exact) \<in> set (expectedPayments (add_all [ex_exact, ex_tol] ex_empty))"
    by (simp add: ex_store_exact_tol)
  have eq: "strict_eq (expectedAmount ex_exact) (Num 1)"
    by (simp add: strict_eq_def ex_expected)
  have u1: "\<forall>p \<in> snd ` set (expectedPayments (add_all [ex_tol, ex_exact] ex_empty)).
              in_scope ''walletA'' None p \<and> strict_eq (expectedAmount p) (Num 1) \<longrightarrow> p = ex_exact"
    by (simp add: ex_store_tol_exact ex_not_exact)
  have u2: "\<forall>p \<in> snd ` set (expectedPayments (add_all [ex_exact, ex_tol] ex_empty)).
              in_scope ''walletA'' None p \<and> strict_eq (expectedAmount p) (Num 1) \<longrightarrow> p = ex_exact"
    by (simp add: ex_store_exact_tol ex_not_exact)
  show ?thesis
    using exact_match_precedence [OF in1 ex_scopes(1) eq]
      exact_match_precedence [OF in2 ex_scopes(1) eq]
      in1 in2 u1 u2 ex_scopes(1,2) eq ex_within_1(1)
    by blast
qed



section \<open>Failed writes\<close>

lemma map_of_mark_expired:
  "map_of (map (\<lambda>(k, payment). (k, if is_overdue now payment then payment\<lparr>status := Expired\<rparr> else payment)) eps) k =
   map_option (\<lambda>payment. if is_overdue now payment then payment\<lparr>status := Expired\<rparr> else payment) (map_of eps k)"
  by (induction eps) auto

lemma ex_due_store: "expectedPayments (add_all [ex_due] ex_empty) = [(''d1'', ex_due)]"
  by (simp add: ex_defs op_defs)

lemma ex_due_io: "io (add_all [ex_due] ex_empty) = 1"
  by (simp add: ex_defs op_defs)

lemma ex_stale_payments: "expectedPayments ex_stale = [(''d1'', ex_due)]"
  by (simp add: ex_stale_def addRecentTransactionMessage_def ex_message_def ex_defs op_defs)

lemma ex_stale_messages: "recentTransactionMessages ex_stale = [(''u1'', ex_message)]"
  by (simp add: ex_stale_def addRecentTransactionMessage_def ex_message_def ex_defs op_defs)

lemma ex_stale_io: "io ex_stale = 2"
  by (simp add: ex_stale_def addRecentTransactionMessage_def ex_message_def ex_defs op_defs)

lemma ex_stale_file:
  "fileContent ex_stale =
     Document \<lparr>f_expectedPayments = [(''d1'', ex_due)], f_paymentNotes = [],
               f_recentTransactionMessages = [(''u1'', ex_message)], f_lastUpdated = 2000001\<rparr>"
  by (simp add: ex_stale_def addRecentTransactionMessage_def ex_message_def ex_defs op_defs)

lemma ex_ws_maps:
  "userWallets ex_ws = [(''u1'', [''walletA''])]" "walletUsers ex_ws = [(''walletA'', ''u1'')]"
  "ws_io ex_ws = 1"
  "mappings_file ex_ws =
     Document \<lparr>md_userWallets = Some [(''u1'', JArray [''walletA''])],
               md_walletUsers = Some [(''walletA'', ''u1'')]\<rparr>"
  by (simp_all add: ex_ws_def ex_ws_empty_def addWallet_def ws_saveToFile_def write_disk_def
      add_to_user_def set_add_def ex_sys_def Let_def)

lemma map_of_filter_distinct:
  assumes "distinct (map fst xs)"
  shows "map_of (filter (\<lambda>(k, v). P v) xs) k =
           (case map_of xs k of None \<Rightarrow> None | Some v \<Rightarrow> if P v then Some v else None)"
  using assms
proof (induction xs)
  case Nil
  show ?case by simp
next
  case (Cons x xs)
  obtain k' v' where x: "x = (k', v')" by (cases x)
  from Cons.prems have d: "distinct (map fst xs)" and nk: "k' \<notin> fst ` set xs"
    using x by simp_all
  have absent: "map_of (filter (\<lambda>(k, v). P v) xs) k' = None"
    using nk by (auto simp: map_of_eq_None_iff)
  show ?case
    using Cons.IH [OF d] x absent by (auto split: option.splits)
qed

text \<open>What a failed write leaves: the error, the maps as they are, and the file.\<close>

lemma write_disk_failed:
  assumes "outcome \<noteq> Written"
  shows "write_disk outcome doc old = (if outcome = FailedAtOpen then old else Truncated)"
  using assms by (cases outcome) (simp_all add: write_disk_def)

lemma saveToFile_fails:
  assumes "writeFile sy (io st) \<noteq> Written"
  shows "fst (saveToFile sy st) = Inl WriteFailed"
    and "expectedPayments (snd (saveToFile sy st)) = expectedPayments st"
    and "paymentNotes (snd (saveToFile sy st)) = paymentNotes st"
    and "recentTransactionMessages (snd (saveToFile sy st)) = recentTransactionMessages st"
    and "fileContent (snd (saveToFile sy st)) =
           (if writeFile sy (io st) = FailedAtOpen then fileContent st else Truncated)"
  using assms by (simp_all add: saveToFile_def Let_def write_disk_failed)

lemma bs_saveToFile_fails:
  assumes "writeFile sy (bs_io bs) \<noteq> Written"
  shows "fst (bs_saveToFile sy bs) = Inl WriteFailed"
    and "previousBalances (snd (bs_saveToFile sy bs)) = previousBalances bs"
    and "balances_file (snd (bs_saveToFile sy bs)) =
           (if writeFile sy (bs_io bs) = FailedAtOpen then balances_file bs else Truncated)"
  using assms by (simp_all add: bs_saveToFile_def Let_def write_disk_failed)

lemma ws_saveToFile_fails:
  assumes "writeFile sy (ws_io ws) \<noteq> Written"
  shows "fst (ws_saveToFile sy ws) = Inl WriteFailed"
    and "userWallets (snd (ws_saveToFile sy ws)) = userWallets ws"
    and "walletUsers (snd (ws_saveToFile sy ws)) = walletUsers ws"
    and "mappings_file (snd (ws_saveToFile sy ws)) =
           (if writeFile sy (ws_io ws) = FailedAtOpen then mappings_file ws else Truncated)"
  using assms by (simp_all add: ws_saveToFile_def Let_def write_disk_failed)

lemma cleanupOld_fails:
  assumes "writeFile sy (io st) \<noteq> Written"
    and "distinct (map fst (recentTransactionMessages st))"
    and "getRecentTransactionByUser st uid = Some m" and "is_old (clock sy (io st)) m"
  shows "fst (cleanupOldTransactionMessages sy st) = Inl WriteFailed \<and>
         getRecentTransactionByUser (snd (cleanupOldTransactionMessages sy st)) uid = None \<and>
         fileContent (snd (cleanupOldTransactionMessages sy st)) =
           (if writeFile sy (io st) = FailedAtOpen then fileContent st else Truncated)"
proof -
  let ?now = "clock sy (io st)"
  let ?st' = "st\<lparr>recentTransactionMessages :=
                   filter (\<lambda>(k, message). \<not> is_old ?now message) (recentTransactionMessages st)\<rparr>"
  have "(uid, m) \<in> set (recentTransactionMessages st)"
    using assms(3) by (auto simp: getRecentTransactionByUser_def dest: map_of_SomeD)
  then have "m \<in> set (filter (is_old ?now) (map snd (recentTransactionMessages st)))"
    using assms(4) by force
  then have pos: "0 < length (filter (is_old ?now) (map snd (recentTransactionMessages st)))"
    by (rule length_pos_if_in_set)
  have gone: "map_of (filter (\<lambda>(k, message). \<not> is_old ?now message)
                 (recentTransactionMessages st)) uid = None"
    using assms(3,4) map_of_filter_distinct [OF assms(2), of "\<lambda>message. \<not> is_old ?now message" uid]
    by (simp add: getRecentTransactionByUser_def)
  have c: "cleanupOldTransactionMessages sy st = saveToFile sy ?st'"
    using pos by (simp add: cleanupOldTransactionMessages_def Let_def)
  have w: "writeFile sy (io ?st') \<noteq> Written" using assms(1) by simp
  show ?thesis
    unfolding c using saveToFile_fails [OF w] gone
    by (simp add: getRecentTransactionByUser_def)
qed

lemma cleanupExpired_fails:
  assumes "writeFile sy (io st) \<noteq> Written"
    and "getExpectedPaymentById st pid = Some q" and "is_overdue (clock sy (io st)) q"
  shows "fst (cleanupExpiredPayments sy st) = Inl WriteFailed \<and>
         getExpectedPaymentById (snd (cleanupExpiredPayments sy st)) pid =
           Some (q\<lparr>status := Expired\<rparr>) \<and>
         fileContent (snd (cleanupExpiredPayments sy st)) =
           (if writeFile sy (io st) = FailedAtOpen then fileContent st else Truncated)"
proof -
  let ?now = "clock sy (io st)"
  let ?st' = "st\<lparr>expectedPayments :=
                   map (\<lambda>(k, payment).
                          (k, if is_overdue ?now payment then payment\<lparr>status := Expired\<rparr>
                              else payment))
                     (expectedPayments st)\<rparr>"
  have "(pid, q) \<in> set (expectedPayments st)"
    using assms(2) by (auto simp: getExpectedPaymentById_def dest: map_of_SomeD)
  then have "q \<in> set (filter (is_overdue ?now) (map snd (expectedPayments st)))"
    using assms(3) by force
  then have pos: "0 < length (filter (is_overdue ?now) (map snd (expectedPayments st)))"
    by (rule length_pos_if_in_set)
  have c: "cleanupExpiredPayments sy st = saveToFile sy ?st'"
    using pos by (simp add: cleanupExpiredPayments_def Let_def)
  have w: "writeFile sy (io ?st') \<noteq> Written" using assms(1) by simp
  show ?thesis
    unfolding c using saveToFile_fails [OF w] assms(2,3)
    by (simp add: getExpectedPaymentById_def map_of_mark_expired)
qed

text \<open>The address store.\<close>

lemma set_add_member: "x \<in> set (set_add x xs)"
  by (simp add: set_add_def)

lemma map_of_add_to_user:
  "map_of (add_to_user u w uw) u =
     Some (set_add w (case map_of uw u of None \<Rightarrow> [] | Some xs \<Rightarrow> xs))"
  by (simp add: add_to_user_def map_of_map_entry update_conv' split: option.splits)

lemma addWallet_fails:
  assumes "writeFile sy (ws_io ws) \<noteq> Written"
  shows "fst (addWallet sy u w ws) = Inl WriteFailed \<and>
         getWalletOwner (snd (addWallet sy u w ws)) w = Some u \<and>
         w \<in> set (getUserWallets (snd (addWallet sy u w ws)) u) \<and>
         mappings_file (snd (addWallet sy u w ws)) =
           (if writeFile sy (ws_io ws) = FailedAtOpen then mappings_file ws else Truncated)"
proof -
  let ?ws' = "ws\<lparr>userWallets := add_to_user u w (userWallets ws),
                  walletUsers := AList.update w u (walletUsers ws)\<rparr>"
  have c: "addWallet sy u w ws = ws_saveToFile sy ?ws'" by (simp add: addWallet_def)
  have f: "writeFile sy (ws_io ?ws') \<noteq> Written" using assms by simp
  show ?thesis
    unfolding c using ws_saveToFile_fails [OF f]
    by (simp add: getWalletOwner_def getUserWallets_def update_conv' map_of_add_to_user
        set_add_member)
qed

lemma removeWallet_fails:
  assumes "writeFile sy (ws_io ws) \<noteq> Written"
  shows "fst (removeWallet sy u w ws) = Inl WriteFailed \<and>
         getWalletOwner (snd (removeWallet sy u w ws)) w = None \<and>
         w \<notin> set (getUserWallets (snd (removeWallet sy u w ws)) u) \<and>
         mappings_file (snd (removeWallet sy u w ws)) =
           (if writeFile sy (ws_io ws) = FailedAtOpen then mappings_file ws else Truncated)"
proof -
  let ?uw = "case map_of (userWallets ws) u of
               None \<Rightarrow> userWallets ws
             | Some wallets \<Rightarrow>
                 if removeAll w wallets = []
                 then AList.delete u (userWallets ws)
                 else AList.map_entry u (removeAll w) (userWallets ws)"
  let ?ws' = "ws\<lparr>userWallets := ?uw, walletUsers := AList.delete w (walletUsers ws)\<rparr>"
  have c: "removeWallet sy u w ws = ws_saveToFile sy ?ws'"
    by (simp add: removeWallet_def Let_def)
  have f: "writeFile sy (ws_io ?ws') \<noteq> Written" using assms by simp
  have m: "w \<notin> set (case map_of ?uw u of None \<Rightarrow> [] | Some wallets \<Rightarrow> wallets)"
    by (simp add: delete_conv' map_of_map_entry split: option.splits)
  show ?thesis
    unfolding c using ws_saveToFile_fails [OF f] m
    by (simp add: getWalletOwner_def getUserWallets_def delete_conv')
qed

lemma update_nonempty: "AList.update k v m \<noteq> []"
  by (cases m) auto

lemma fold_update_nonempty:
  "m \<noteq> [] \<Longrightarrow> fold (\<lambda>(k, v) m. AList.update k v m) es m \<noteq> []"
proof (induction es arbitrary: m)
  case Nil
  then show ?case by simp
next
  case (Cons e es)
  obtain k v where e: "e = (k, v)" by (cases e)
  have "AList.update k v m \<noteq> []" by (rule update_nonempty)
  from Cons.IH [OF this] show ?case using e by simp
qed

lemma map_from_entries_nonempty: "es \<noteq> [] \<Longrightarrow> map_from_entries es \<noteq> []"
proof (cases es)
  case Nil
  assume "es \<noteq> []"
  with Nil show ?thesis by simp
next
  case (Cons e es')
  obtain k v where e: "e = (k, v)" by (cases e)
  have "fold (\<lambda>(k, v) m. AList.update k v m) es' (AList.update k v []) \<noteq> []"
    by (rule fold_update_nonempty) simp
  then show ?thesis using Cons e by (simp add: map_from_entries_def)
qed

text \<open>
  \<open>initialize\<close> over a document that lists users of wallets and no wallets of users:
  the rebuilt map is saved, and when that write fails the error stays inside
  \<open>initialize\<close>, which returns with both maps empty.
\<close>

lemma ws_initialize_rebuild_fails:
  assumes "writeFile sy (ws_io ws) \<noteq> Written"
    and "mappings_file ws = Document parsed"
    and "md_userWallets parsed = None \<or> md_userWallets parsed = Some []"
    and "md_walletUsers parsed = Some es" and "es \<noteq> []"
  shows "fst (ws_loadFromFile sy ws) = Inl WriteFailed \<and>
         walletUsers (snd (ws_loadFromFile sy ws)) = map_from_entries es \<and>
         userWallets (ws_initialize sy ws) = [] \<and>
         walletUsers (ws_initialize sy ws) = [] \<and>
         mappings_file (ws_initialize sy ws) =
           (if writeFile sy (ws_io ws) = FailedAtOpen then mappings_file ws else Truncated)"
proof -
  let ?wu = "map_from_entries es"
  let ?ws' = "ws\<lparr>walletUsers := ?wu,
                  userWallets :=
                    fold (\<lambda>(walletAddress, userId) m. add_to_user userId walletAddress m) ?wu []\<rparr>"
  have ne: "0 < length ?wu" using map_from_entries_nonempty [OF assms(5)] by simp
  have uw: "(case md_userWallets parsed of
               None \<Rightarrow> []
             | Some entries \<Rightarrow>
                 fold (\<lambda>(userId, wallets) m. AList.update userId (wallets_of_json wallets) m)
                   entries []) = []"
    using assms(3) by auto
  have c: "ws_loadFromFile sy ws = ws_saveToFile sy ?ws'"
    using ne by (simp add: ws_loadFromFile_def assms(2,4) uw Let_def)
  have f: "writeFile sy (ws_io ?ws') \<noteq> Written" using assms(1) by simp
  have l: "fst (ws_loadFromFile sy ws) = Inl WriteFailed"
    unfolding c by (rule ws_saveToFile_fails(1) [OF f])
  have i: "ws_initialize sy ws =
             (snd (ws_loadFromFile sy ws))\<lparr>userWallets := [], walletUsers := []\<rparr>"
    using l by (cases "ws_loadFromFile sy ws") (simp add: ws_initialize_def)
  show ?thesis
    unfolding i using l ws_saveToFile_fails(3,4) [OF f] by (simp add: c)
qed

text \<open>
  Claim C9, as stated, fails in two ways. \<open>fs.writeFile\<close> empties the file before it
  writes, so after a write that fails on a full disk the file does not hold its old
  contents: here it held a document and holds the beginning of one. And the write that
  \<open>initialize\<close> of the address store makes when it rebuilds a map is inside its \<open>try\<close>:
  here that write fails, \<open>initialize\<close> returns without an error, and the entry it had
  read is gone from memory.
\<close>

theorem failed_write_empties_file:
  "fileContent ex_stale =
     Document \<lparr>f_expectedPayments = [(''d1'', ex_due)], f_paymentNotes = [],
               f_recentTransactionMessages = [(''u1'', ex_message)], f_lastUpdated = 2000001\<rparr> \<and>
   writeFile ex_sys_disk_full (io ex_stale) = FailedAfterTruncate \<and>
   fst (addExpectedPayment ex_sys_disk_full ex_tol ex_stale) = Inl WriteFailed \<and>
   getExpectedPaymentById (snd (addExpectedPayment ex_sys_disk_full ex_tol ex_stale)) ''t1'' =
     Some ex_tol \<and>
   fileContent (snd (addExpectedPayment ex_sys_disk_full ex_tol ex_stale)) = Truncated \<and>
   mappings_file ex_ws_legacy =
     Document \<lparr>md_userWallets = Some [], md_walletUsers = Some [(''walletA'', ''u1'')]\<rparr> \<and>
   fst (ws_loadFromFile ex_sys_disk_full ex_ws_legacy) = Inl WriteFailed \<and>
   getWalletOwner (snd (ws_loadFromFile ex_sys_disk_full ex_ws_legacy)) ''walletA'' =
     Some ''u1'' \<and>
   ws_initialize ex_sys_disk_full ex_ws_legacy =
     \<lparr>userWallets = [], walletUsers = [], mappings_file = Truncated, ws_io = 1\<rparr>"
proof -
  have a: "writeFile ex_sys_disk_full (io ex_stale) = FailedAfterTruncate"
    by (simp add: ex_sys_disk_full_def)
  have b: "fst (addExpectedPayment ex_sys_disk_full ex_tol ex_stale) = Inl WriteFailed"
    "getExpectedPaymentById (snd (addExpectedPayment ex_sys_disk_full ex_tol ex_stale)) ''t1'' =
       Some ex_tol"
    "fileContent (snd (addExpectedPayment ex_sys_disk_full ex_tol ex_stale)) = Truncated"
    by (simp_all add: addExpectedPayment_def saveToFile_def write_disk_def Let_def a
        getExpectedPaymentById_def ex_stale_payments ex_tol_def)
  have c: "mappings_file ex_ws_legacy =
     Document \<lparr>md_userWallets = Some [], md_walletUsers = Some [(''walletA'', ''u1'')]\<rparr>"
    by (simp add: ex_ws_legacy_def)
  have l: "ws_loadFromFile ex_sys_disk_full ex_ws_legacy =
     (Inl WriteFailed,
      \<lparr>userWallets = [(''u1'', [''walletA''])], walletUsers = [(''walletA'', ''u1'')],
       mappings_file = Truncated, ws_io = 1\<rparr>)"
    by (simp add: ws_loadFromFile_def ex_ws_legacy_def map_from_entries_def add_to_user_def
        set_add_def ws_saveToFile_def write_disk_def ex_sys_disk_full_def Let_def)
  have i: "ws_initialize ex_sys_disk_full ex_ws_legacy =
     \<lparr>userWallets = [], walletUsers = [], mappings_file = Truncated, ws_io = 1\<rparr>"
    by (simp add: ws_initialize_def l)
  show ?thesis using ex_stale_file a b c i by (simp add: l getWalletOwner_def)
qed

text \<open>
  Claim C9, amended. When the write of the backing file fails, a mutating operation of
  the expectation store, of the snapshot store or of the address store returns the error
  of the write, and the value it stored is what the in-memory reads return afterwards.
  The file holds what it held before when the write failed on opening the file, and the
  beginning of the new document otherwise. Stated for \<open>addExpectedPayment\<close>,
  \<open>updateExpectedPaymentStatus\<close>, \<open>removeExpectedPayment\<close>, \<open>addPaymentNote\<close>,
  \<open>addRecentTransactionMessage\<close>, \<open>cleanupExpiredPayments\<close>,
  \<open>cleanupOldTransactionMessages\<close>, \<open>updateWalletBalances\<close>, \<open>addWallet\<close> and
  \<open>removeWallet\<close>. The write inside \<open>initialize\<close> of the address store is the exception:
  its error is caught there, and \<open>initialize\<close> returns with both maps empty.
\<close>

theorem write_failure_keeps_memory_change:
  assumes "writeFile sy (io st) \<noteq> Written" and "writeFile sy (bs_io bs) \<noteq> Written"
    and "writeFile sy (ws_io ws) \<noteq> Written"
  shows "(fst (addExpectedPayment sy p st) = Inl WriteFailed \<and>
          getExpectedPaymentById (snd (addExpectedPayment sy p st)) (ep_id p) = Some p \<and>
          fileContent (snd (addExpectedPayment sy p st)) =
            (if writeFile sy (io st) = FailedAtOpen then fileContent st else Truncated)) \<and>
         (\<forall>q. getExpectedPaymentById st pid = Some q \<longrightarrow>
            fst (updateExpectedPaymentStatus sy pid s st) = Inl WriteFailed \<and>
            getExpectedPaymentById (snd (updateExpectedPaymentStatus sy pid s st)) pid =
              Some (q\<lparr>status := s\<rparr>) \<and>
            fileContent (snd (updateExpectedPaymentStatus sy pid s st)) =
              (if writeFile sy (io st) = FailedAtOpen then fileContent st else Truncated)) \<and>
         (\<forall>q. getExpectedPaymentById st pid = Some q \<and> ep_userId q = uid \<longrightarrow>
            fst (removeExpectedPayment sy uid pid st) = Inl WriteFailed \<and>
            getExpectedPaymentById (snd (removeExpectedPayment sy uid pid st)) pid = None \<and>
            fileContent (snd (removeExpectedPayment sy uid pid st)) =
              (if writeFile sy (io st) = FailedAtOpen then fileContent st else Truncated)) \<and>
         (fst (addPaymentNote sy n st) = Inl WriteFailed \<and>
          map_of (paymentNotes (snd (addPaymentNote sy n st))) (pn_id n) = Some n \<and>
          fileContent (snd (addPaymentNote sy n st)) =
            (if writeFile sy (io st) = FailedAtOpen then fileContent st else Truncated)) \<and>
         (fst (addRecentTransactionMessage sy msg st) = Inl WriteFailed \<and>
          getRecentTransactionByUser (snd (addRecentTransactionMessage sy msg st)) (rm_userId msg) =
            Some msg \<and>
          fileContent (snd (addRecentTransactionMessage sy msg st)) =
            (if writeFile sy (io st) = FailedAtOpen then fileContent st else Truncated)) \<and>
         (\<forall>q. getExpectedPaymentById st pid = Some q \<and> is_overdue (clock sy (io st)) q \<longrightarrow>
            fst (cleanupExpiredPayments sy st) = Inl WriteFailed \<and>
            getExpectedPaymentById (snd (cleanupExpiredPayments sy st)) pid =
              Some (q\<lparr>status := Expired\<rparr>) \<and>
            fileContent (snd (cleanupExpiredPayments sy st)) =
              (if writeFile sy (io st) = FailedAtOpen then fileContent st else Truncated)) \<and>
         (\<forall>m. distinct (map fst (recentTransactionMessages st)) \<and>
              getRecentTransactionByUser st uid = Some m \<and> is_old (clock sy (io st)) m \<longrightarrow>
            fst (cleanupOldTransactionMessages sy st) = Inl WriteFailed \<and>
            getRecentTransactionByUser (snd (cleanupOldTransactionMessages sy st)) uid = None \<and>
            fileContent (snd (cleanupOldTransactionMessages sy st)) =
              (if writeFile sy (io st) = FailedAtOpen then fileContent st else Truncated)) \<and>
         (fst (updateWalletBalances sy w b bs) = Inl WriteFailed \<and>
          map_option wallet_balances.truncate
            (getPreviousBalances (snd (updateWalletBalances sy w b bs)) w) = Some b \<and>
          balances_file (snd (updateWalletBalances sy w b bs)) =
            (if writeFile sy (bs_io bs) = FailedAtOpen then balances_file bs else Truncated)) \<and>
         (fst (addWallet sy uid w ws) = Inl WriteFailed \<and>
          getWalletOwner (snd (addWallet sy uid w ws)) w = Some uid \<and>
          w \<in> set (getUserWallets (snd (addWallet sy uid w ws)) uid) \<and>
          mappings_file (snd (addWallet sy uid w ws)) =
            (if writeFile sy (ws_io ws) = FailedAtOpen then mappings_file ws else Truncated)) \<and>
         (fst (removeWallet sy uid w ws) = Inl WriteFailed \<and>
          getWalletOwner (snd (removeWallet sy uid w ws)) w = None \<and>
          w \<notin> set (getUserWallets (snd (removeWallet sy uid w ws)) uid) \<and>
          mappings_file (snd (removeWallet sy uid w ws)) =
            (if writeFile sy (ws_io ws) = FailedAtOpen then mappings_file ws else Truncated)) \<and>
         (\<forall>parsed es. mappings_file ws = Document parsed \<and>
              (md_userWallets parsed = None \<or> md_userWallets parsed = Some []) \<and>
              md_walletUsers parsed = Some es \<and> es \<noteq> [] \<longrightarrow>
            fst (ws_loadFromFile sy ws) = Inl WriteFailed \<and>
            walletUsers (snd (ws_loadFromFile sy ws)) = map_from_entries es \<and>
            userWallets (ws_initialize sy ws) = [] \<and>
            walletUsers (ws_initialize sy ws) = [] \<and>
            mappings_file (ws_initialize sy ws) =
              (if writeFile sy (ws_io ws) = FailedAtOpen then mappings_file ws else Truncated))"
proof -
  let ?file = "if writeFile sy (io st) = FailedAtOpen then fileContent st else Truncated"
  have w: "writeFile sy (io (st\<lparr>expectedPayments := eps\<rparr>)) \<noteq> Written"
    "writeFile sy (io (st\<lparr>paymentNotes := pns\<rparr>)) \<noteq> Written"
    "writeFile sy (io (st\<lparr>recentTransactionMessages := rms\<rparr>)) \<noteq> Written" for eps pns rms
    using assms(1) by simp_all
  have add: "fst (addExpectedPayment sy p st) = Inl WriteFailed \<and>
          getExpectedPaymentById (snd (addExpectedPayment sy p st)) (ep_id p) = Some p \<and>
          fileContent (snd (addExpectedPayment sy p st)) = ?file"
    unfolding addExpectedPayment_def using saveToFile_fails [OF w(1)]
    by (simp add: getExpectedPaymentById_def update_conv')
  have upd: "\<forall>q. getExpectedPaymentById st pid = Some q \<longrightarrow>
            fst (updateExpectedPaymentStatus sy pid s st) = Inl WriteFailed \<and>
            getExpectedPaymentById (snd (updateExpectedPaymentStatus sy pid s st)) pid =
              Some (q\<lparr>status := s\<rparr>) \<and>
            fileContent (snd (updateExpectedPaymentStatus sy pid s st)) = ?file"
    using saveToFile_fails [OF w(1)]
    by (simp add: updateExpectedPaymentStatus_def getExpectedPaymentById_def map_of_map_entry)
  have rem: "\<forall>q. getExpectedPaymentById st pid = Some q \<and> ep_userId q = uid \<longrightarrow>
            fst (removeExpectedPayment sy uid pid st) = Inl WriteFailed \<and>
            getExpectedPaymentById (snd (removeExpectedPayment sy uid pid st)) pid = None \<and>
            fileContent (snd (removeExpectedPayment sy uid pid st)) = ?file"
    using saveToFile_fails [OF w(1)]
    by (simp add: removeExpectedPayment_def getExpectedPaymentById_def delete_conv')
  have pnote: "fst (addPaymentNote sy n st) = Inl WriteFailed \<and>
          map_of (paymentNotes (snd (addPaymentNote sy n st))) (pn_id n) = Some n \<and>
          fileContent (snd (addPaymentNote sy n st)) = ?file"
    unfolding addPaymentNote_def using saveToFile_fails [OF w(2)]
    by (simp add: update_conv')
  have recent: "fst (addRecentTransactionMessage sy msg st) = Inl WriteFailed \<and>
          getRecentTransactionByUser (snd (addRecentTransactionMessage sy msg st)) (rm_userId msg) =
            Some msg \<and>
          fileContent (snd (addRecentTransactionMessage sy msg st)) = ?file"
    unfolding addRecentTransactionMessage_def using saveToFile_fails [OF w(3)]
    by (simp add: getRecentTransactionByUser_def update_conv')
  have clean: "\<forall>q. getExpectedPaymentById st pid = Some q \<and> is_overdue (clock sy (io st)) q \<longrightarrow>
            fst (cleanupExpiredPayments sy st) = Inl WriteFailed \<and>
            getExpectedPaymentById (snd (cleanupExpiredPayments sy st)) pid =
              Some (q\<lparr>status := Expired\<rparr>) \<and>
            fileContent (snd (cleanupExpiredPayments sy st)) = ?file"
    using cleanupExpired_fails [OF assms(1)] by blast
  have old: "\<forall>m. distinct (map fst (recentTransactionMessages st)) \<and>
              getRecentTransactionByUser st uid = Some m \<and> is_old (clock sy (io st)) m \<longrightarrow>
            fst (cleanupOldTransactionMessages sy st) = Inl WriteFailed \<and>
            getRecentTransactionByUser (snd (cleanupOldTransactionMessages sy st)) uid = None \<and>
            fileContent (snd (cleanupOldTransactionMessages sy st)) = ?file"
    using cleanupOld_fails [OF assms(1)] by blast
  have wb: "writeFile sy (bs_io (bs\<lparr>previousBalances := pbs\<rparr>)) \<noteq> Written" for pbs
    using assms(2) by simp
  have bal: "fst (updateWalletBalances sy w b bs) = Inl WriteFailed \<and>
          map_option wallet_balances.truncate
            (getPreviousBalances (snd (updateWalletBalances sy w b bs)) w) = Some b \<and>
          balances_file (snd (updateWalletBalances sy w b bs)) =
            (if writeFile sy (bs_io bs) = FailedAtOpen then balances_file bs else Truncated)"
    unfolding updateWalletBalances_def Let_def using bs_saveToFile_fails [OF wb]
    by (simp add: getPreviousBalances_def update_conv' wallet_balances.truncate_def
        wallet_balances.extend_def stored_balances.fields_def)
  have init: "\<forall>parsed es. mappings_file ws = Document parsed \<and>
              (md_userWallets parsed = None \<or> md_userWallets parsed = Some []) \<and>
              md_walletUsers parsed = Some es \<and> es \<noteq> [] \<longrightarrow>
            fst (ws_loadFromFile sy ws) = Inl WriteFailed \<and>
            walletUsers (snd (ws_loadFromFile sy ws)) = map_from_entries es \<and>
            userWallets (ws_initialize sy ws) = [] \<and>
            walletUsers (ws_initialize sy ws) = [] \<and>
            mappings_file (ws_initialize sy ws) =
              (if writeFile sy (ws_io ws) = FailedAtOpen then mappings_file ws else Truncated)"
    using ws_initialize_rebuild_fails [OF assms(3)] by blast
  show ?thesis
    apply (rule conjI, rule add)
    apply (rule conjI, rule upd)
    apply (rule conjI, rule rem)
    apply (rule conjI, rule pnote)
    apply (rule conjI, rule recent)
    apply (rule conjI, rule clean)
    apply (rule conjI, rule old)
    apply (rule conjI, rule bal)
    apply (rule conjI, rule addWallet_fails [OF assms(3)])
    apply (rule conjI, rule removeWallet_fails [OF assms(3)])
    apply (rule init)
    done
qed

text \<open>
  On a full disk every write fails after the file was emptied; on a file that may not be
  written every write fails on opening.
\<close>

theorem write_failure_keeps_memory_change_witness:
  "writeFile ex_sys_disk_full (io ex_stale) \<noteq> Written \<and>
   writeFile ex_sys_disk_full (bs_io ex_bs) \<noteq> Written \<and>
   writeFile ex_sys_disk_full (ws_io ex_ws) \<noteq> Written \<and>
   writeFile ex_sys_disk_full (ws_io ex_ws_legacy) \<noteq> Written \<and>
   writeFile ex_sys_read_only (io ex_stale) = FailedAtOpen \<and>
   getExpectedPaymentById ex_stale ''d1'' = Some ex_due \<and>
   ep_userId ex_due = ''u1'' \<and>
   is_overdue (clock ex_sys_disk_full (io ex_stale)) ex_due \<and>
   distinct (map fst (recentTransactionMessages ex_stale)) \<and>
   getRecentTransactionByUser ex_stale ''u1'' = Some ex_message \<and>
   is_old (clock ex_sys_disk_full (io ex_stale)) ex_message \<and>
   fst (addExpectedPayment ex_sys_disk_full ex_tol ex_stale) = Inl WriteFailed \<and>
   getExpectedPaymentById (snd (addExpectedPayment ex_sys_disk_full ex_tol ex_stale)) ''t1'' =
     Some ex_tol \<and>
   fileContent (snd (addExpectedPayment ex_sys_disk_full ex_tol ex_stale)) = Truncated \<and>
   fst (addExpectedPayment ex_sys_read_only ex_tol ex_stale) = Inl WriteFailed \<and>
   getExpectedPaymentById (snd (addExpectedPayment ex_sys_read_only ex_tol ex_stale)) ''t1'' =
     Some ex_tol \<and>
   fileContent (snd (addExpectedPayment ex_sys_read_only ex_tol ex_stale)) =
     Document \<lparr>f_expectedPayments = [(''d1'', ex_due)], f_paymentNotes = [],
               f_recentTransactionMessages = [(''u1'', ex_message)], f_lastUpdated = 2000001\<rparr> \<and>
   fst (updateExpectedPaymentStatus ex_sys_disk_full ''d1'' Received ex_stale) =
     Inl WriteFailed \<and>
   getExpectedPaymentById
     (snd (updateExpectedPaymentStatus ex_sys_disk_full ''d1'' Received ex_stale)) ''d1'' =
     Some (ex_due\<lparr>status := Received\<rparr>) \<and>
   fileContent (snd (updateExpectedPaymentStatus ex_sys_disk_full ''d1'' Received ex_stale)) =
     Truncated \<and>
   getExpectedPaymentById
     (snd (removeExpectedPayment ex_sys_disk_full ''u1'' ''d1'' ex_stale)) ''d1'' = None \<and>
   getExpectedPaymentById (snd (cleanupExpiredPayments ex_sys_disk_full ex_stale)) ''d1'' =
     Some (ex_due\<lparr>status := Expired\<rparr>) \<and>
   getRecentTransactionByUser (snd (cleanupOldTransactionMessages ex_sys_disk_full ex_stale))
     ''u1'' = None \<and>
   fileContent (snd (cleanupOldTransactionMessages ex_sys_disk_full ex_stale)) = Truncated \<and>
   fst (updateWalletBalances ex_sys_disk_full ''walletA'' ex_cur ex_bs) = Inl WriteFailed \<and>
   map_option wallet_balances.truncate
     (getPreviousBalances (snd (updateWalletBalances ex_sys_disk_full ''walletA'' ex_cur ex_bs))
        ''walletA'') = Some ex_cur \<and>
   balances_file ex_bs =
     Document \<lparr>f_balances = [(''walletA'', ex_prev)], f_balancesUpdated = 1000\<rparr> \<and>
   balances_file (snd (updateWalletBalances ex_sys_disk_full ''walletA'' ex_cur ex_bs)) =
     Truncated \<and>
   fst (addWallet ex_sys_disk_full ''u2'' ''walletC'' ex_ws) = Inl WriteFailed \<and>
   getWalletOwner (snd (addWallet ex_sys_disk_full ''u2'' ''walletC'' ex_ws)) ''walletC'' =
     Some ''u2'' \<and>
   mappings_file (snd (addWallet ex_sys_disk_full ''u2'' ''walletC'' ex_ws)) = Truncated \<and>
   getWalletOwner ex_ws ''walletA'' = Some ''u1'' \<and>
   fst (removeWallet ex_sys_disk_full ''u1'' ''walletA'' ex_ws) = Inl WriteFailed \<and>
   getWalletOwner (snd (removeWallet ex_sys_disk_full ''u1'' ''walletA'' ex_ws)) ''walletA'' =
     None \<and>
   mappings_file ex_ws_legacy =
     Document \<lparr>md_userWallets = Some [], md_walletUsers = Some [(''walletA'', ''u1'')]\<rparr> \<and>
   fst (ws_loadFromFile ex_sys_disk_full ex_ws_legacy) = Inl WriteFailed \<and>
   walletUsers (snd (ws_loadFromFile ex_sys_disk_full ex_ws_legacy)) = [(''walletA'', ''u1'')] \<and>
   userWallets (ws_initialize ex_sys_disk_full ex_ws_legacy) = [] \<and>
   walletUsers (ws_initialize ex_sys_disk_full ex_ws_legacy) = [] \<and>
   mappings_file (ws_initialize ex_sys_disk_full ex_ws_legacy) = Truncated"
proof -
  have h1: "writeFile ex_sys_disk_full (io ex_stale) \<noteq> Written"
    by (simp add: ex_sys_disk_full_def)
  have h2: "writeFile ex_sys_disk_full (bs_io ex_bs) \<noteq> Written"
    by (simp add: ex_sys_disk_full_def)
  have h3: "writeFile ex_sys_disk_full (ws_io ex_ws) \<noteq> Written"
    by (simp add: ex_sys_disk_full_def)
  have h4: "writeFile ex_sys_disk_full (ws_io ex_ws_legacy) \<noteq> Written"
    by (simp add: ex_sys_disk_full_def)
  have k: "writeFile ex_sys_disk_full n \<noteq> FailedAtOpen" for n
    by (simp add: ex_sys_disk_full_def)
  have r1: "writeFile ex_sys_read_only (io ex_stale) \<noteq> Written"
    and r2: "writeFile ex_sys_read_only (bs_io ex_bs) \<noteq> Written"
    and r3: "writeFile ex_sys_read_only (ws_io ex_ws) \<noteq> Written"
    and ro: "writeFile ex_sys_read_only (io ex_stale) = FailedAtOpen"
    by (simp_all add: ex_sys_read_only_def)
  have g: "getExpectedPaymentById ex_stale ''d1'' = Some ex_due"
    by (simp add: getExpectedPaymentById_def ex_stale_payments)
  have u: "ep_userId ex_due = ''u1''" by (simp add: ex_due_def)
  have o: "is_overdue (clock ex_sys_disk_full (io ex_stale)) ex_due"
    by (simp add: ex_stale_io is_overdue_def ex_due_def ex_sys_disk_full_def ex_sys_def)
  have d: "distinct (map fst (recentTransactionMessages ex_stale))"
    by (simp add: ex_stale_messages)
  have r: "getRecentTransactionByUser ex_stale ''u1'' = Some ex_message"
    by (simp add: getRecentTransactionByUser_def ex_stale_messages)
  have l: "is_old (clock ex_sys_disk_full (io ex_stale)) ex_message"
    by (simp add: ex_stale_io is_old_def ex_message_def ex_sys_disk_full_def ex_sys_def)
  have t: "ep_id ex_tol = ''t1''" by (simp add: ex_tol_def)
  have bf: "balances_file ex_bs =
     Document \<lparr>f_balances = [(''walletA'', ex_prev)], f_balancesUpdated = 1000\<rparr>"
    by (simp add: ex_bs_def)
  have own: "getWalletOwner ex_ws ''walletA'' = Some ''u1''"
    by (simp add: getWalletOwner_def ex_ws_maps)
  have leg: "mappings_file ex_ws_legacy =
     Document \<lparr>md_userWallets = Some [], md_walletUsers = Some [(''walletA'', ''u1'')]\<rparr>"
    by (simp add: ex_ws_legacy_def)
  have legacy: "md_userWallets \<lparr>md_userWallets = Some [], md_walletUsers = Some [(''walletA'', ''u1'')]\<rparr> = None \<or>
      md_userWallets \<lparr>md_userWallets = Some [], md_walletUsers = Some [(''walletA'', ''u1'')]\<rparr> = Some []"
    "md_walletUsers \<lparr>md_userWallets = Some [], md_walletUsers = Some [(''walletA'', ''u1'')]\<rparr> =
       Some [(''walletA'', ''u1'')]"
    "[(''walletA'', ''u1'')] \<noteq> ([] :: (string \<times> string) list)"
    by simp_all
  have mfe: "map_from_entries [(''walletA'', ''u1'')] = [(''walletA'', ''u1'')]"
    by (simp add: map_from_entries_def)
  note full = write_failure_keeps_memory_change [OF h1 h2 h3,
      of ex_tol "''d1''" Received "''u1''" ex_note ex_message "''walletA''" ex_cur]
  note full2 = write_failure_keeps_memory_change [OF h1 h2 h3,
      of ex_tol "''d1''" Received "''u2''" ex_note ex_message "''walletC''" ex_cur]
  note full3 = write_failure_keeps_memory_change [OF h1 h2 h4,
      of ex_tol "''d1''" Received "''u1''" ex_note ex_message "''walletA''" ex_cur]
  note readonly = write_failure_keeps_memory_change [OF r1 r2 r3,
      of ex_tol "''d1''" Received "''u1''" ex_note ex_message "''walletA''" ex_cur]
  note c1 = full [THEN conjunct1]
  note c2 = full [THEN conjunct2, THEN conjunct1, rule_format, OF g]
  note c3 = full [THEN conjunct2, THEN conjunct2, THEN conjunct1, rule_format, OF conjI [OF g u]]
  note c6 = full [THEN conjunct2, THEN conjunct2, THEN conjunct2, THEN conjunct2,
      THEN conjunct2, THEN conjunct1, rule_format, OF conjI [OF g o]]
  note c7 = full [THEN conjunct2, THEN conjunct2, THEN conjunct2, THEN conjunct2,
      THEN conjunct2, THEN conjunct2, THEN conjunct1, rule_format, OF conjI [OF d conjI [OF r l]]]
  note c8 = full [THEN conjunct2, THEN conjunct2, THEN conjunct2, THEN conjunct2,
      THEN conjunct2, THEN conjunct2, THEN conjunct2, THEN conjunct1]
  note c9 = full2 [THEN conjunct2, THEN conjunct2, THEN conjunct2, THEN conjunct2,
      THEN conjunct2, THEN conjunct2, THEN conjunct2, THEN conjunct2, THEN conjunct1]
  note c10 = full [THEN conjunct2, THEN conjunct2, THEN conjunct2, THEN conjunct2,
      THEN conjunct2, THEN conjunct2, THEN conjunct2, THEN conjunct2, THEN conjunct2,
      THEN conjunct1]
  note c11 = full3 [THEN conjunct2, THEN conjunct2, THEN conjunct2, THEN conjunct2,
      THEN conjunct2, THEN conjunct2, THEN conjunct2, THEN conjunct2, THEN conjunct2,
      THEN conjunct2, rule_format, OF conjI [OF leg conjI [OF legacy(1) conjI [OF legacy(2,3)]]]]
  note d1 = readonly [THEN conjunct1]
  show ?thesis
    using h1 h2 h3 h4 ro g u o d r l c1 c2 c3 c6 c7 c8 c9 c10 c11 d1 bf own leg
    by (simp add: t k mfe ex_stale_file)
qed

section \<open>The life of an expected payment\<close>

subsection \<open>What each operation does to the map of expected payments\<close>

lemma expectedPayments_saveToFile [simp]:
  "expectedPayments (snd (saveToFile sy st)) = expectedPayments st"
  by (simp add: saveToFile_def Let_def)

lemma expectedPayments_fresh_id [simp]:
  "expectedPayments (snd (fresh_id sy st)) = expectedPayments st"
  by (simp add: fresh_id_def)

lemma expectedPayments_addPaymentNote [simp]:
  "expectedPayments (snd (addPaymentNote sy n st)) = expectedPayments st"
  by (simp add: addPaymentNote_def)

lemma expectedPayments_addRecent [simp]:
  "expectedPayments (snd (addRecentTransactionMessage sy msg st)) = expectedPayments st"
  by (simp add: addRecentTransactionMessage_def)

lemma expectedPayments_cleanupOld [simp]:
  "expectedPayments (snd (cleanupOldTransactionMessages sy st)) = expectedPayments st"
  by (simp add: cleanupOldTransactionMessages_def Let_def)

lemma expectedPayments_add [simp]:
  "expectedPayments (snd (addExpectedPayment sy p st)) =
     AList.update (ep_id p) p (expectedPayments st)"
  by (simp add: addExpectedPayment_def)

lemma expectedPayments_remove:
  "expectedPayments (snd (removeExpectedPayment sy u k st)) = expectedPayments st \<or>
   expectedPayments (snd (removeExpectedPayment sy u k st)) = AList.delete k (expectedPayments st)"
  by (simp add: removeExpectedPayment_def split: option.splits)

lemma expectedPayments_cleanupExpired [simp]:
  "expectedPayments (snd (cleanupExpiredPayments sy st)) =
     map (\<lambda>(k, payment).
            (k, if is_overdue (clock sy (io st)) payment then payment\<lparr>status := Expired\<rparr>
                else payment))
       (expectedPayments st)"
  by (simp add: cleanupExpiredPayments_def Let_def)

lemma map_entry_absent: "map_of xs k = None \<Longrightarrow> AList.map_entry k f xs = xs"
  by (induction xs) (auto split: if_splits)

lemma expectedPayments_update:
  "expectedPayments (snd (updateExpectedPaymentStatus sy k s st)) =
     AList.map_entry k (\<lambda>p. p\<lparr>status := s\<rparr>) (expectedPayments st)"
  by (simp add: updateExpectedPaymentStatus_def map_entry_absent split: option.splits)

lemma expectedPayments_handle:
  "expectedPayments (handleExpectedPaymentMatch sy m s st) =
     AList.map_entry (ep_id (expectedPayment m)) (\<lambda>p. p\<lparr>status := Received\<rparr>)
       (expectedPayments st)"
proof -
  obtain r st1 where u: "updateExpectedPaymentStatus sy (ep_id (expectedPayment m)) Received st = (r, st1)"
    by (cases "updateExpectedPaymentStatus sy (ep_id (expectedPayment m)) Received st")
  have e1: "expectedPayments st1 =
     AList.map_entry (ep_id (expectedPayment m)) (\<lambda>p. p\<lparr>status := Received\<rparr>)
       (expectedPayments st)"
    using expectedPayments_update [of sy "ep_id (expectedPayment m)" Received st] u by simp
  show ?thesis
  proof (cases r)
    case (Inl e)
    then show ?thesis using u e1 by (simp add: handleExpectedPaymentMatch_def)
  next
    case (Inr v)
    obtain i st2 where f: "fresh_id sy st1 = (i, st2)" by (cases "fresh_id sy st1")
    have "expectedPayments st2 = expectedPayments st1"
      using expectedPayments_fresh_id [of sy st1] f by simp
    then show ?thesis
      using u e1 Inr f by (simp add: handleExpectedPaymentMatch_def Let_def)
  qed
qed

subsection \<open>A tick only moves payments to received\<close>

lemma only_received_refl: "only_received eps eps"
  by (simp add: only_received_def)

lemma only_received_trans:
  assumes "only_received a b" and "only_received b c"
  shows "only_received a c"
  unfolding only_received_def
proof
  fix k
  from assms(1) have ab: "map_of b k = map_of a k \<or>
      (\<exists>p. map_of a k = Some p \<and> map_of b k = Some (p\<lparr>status := Received\<rparr>))"
    by (simp add: only_received_def)
  from assms(2) have bc: "map_of c k = map_of b k \<or>
      (\<exists>p. map_of b k = Some p \<and> map_of c k = Some (p\<lparr>status := Received\<rparr>))"
    by (simp add: only_received_def)
  show "map_of c k = map_of a k \<or>
      (\<exists>p. map_of a k = Some p \<and> map_of c k = Some (p\<lparr>status := Received\<rparr>))"
  proof (cases "map_of b k = map_of a k")
    case True
    with bc show ?thesis by simp
  next
    case False
    with ab obtain p where a: "map_of a k = Some p"
      and b: "map_of b k = Some (p\<lparr>status := Received\<rparr>)" by blast
    from bc b have "map_of c k = Some (p\<lparr>status := Received\<rparr>)" by auto
    with a show ?thesis by simp
  qed
qed

lemma only_received_map_entry:
  "only_received eps (AList.map_entry k (\<lambda>p. p\<lparr>status := Received\<rparr>) eps)"
  by (auto simp: only_received_def map_of_map_entry split: option.splits)

lemma only_received_match_and_handle:
  "only_received (expectedPayments st)
     (expectedPayments (match_and_handle co sy w a mint s st))"
  by (simp add: match_and_handle_def expectedPayments_handle only_received_refl
      only_received_map_entry split: option.splits)

lemma only_received_fold:
  assumes "\<And>x s. only_received (expectedPayments s) (expectedPayments (f x s))"
  shows "only_received (expectedPayments st) (expectedPayments (fold f xs st))"
proof (induction xs arbitrary: st)
  case Nil
  show ?case by (simp add: only_received_refl)
next
  case (Cons x xs)
  have "only_received (expectedPayments st) (expectedPayments (f x st))" by (rule assms)
  moreover have "only_received (expectedPayments (f x st)) (expectedPayments (fold f xs (f x st)))"
    by (rule Cons.IH)
  ultimately show ?case using only_received_trans by force
qed

lemma only_received_checkMatches:
  "only_received (expectedPayments st)
     (expectedPayments (checkExpectedPaymentMatches co sy w s st))"
proof -
  let ?st1 = "if fgt (ts_solChange s) (Num 0)
              then match_and_handle co sy w (ts_solChange s) None s st else st"
  let ?f = "\<lambda>(mint, chg) s'. if fgt chg (Num 0)
              then match_and_handle co sy w chg (Some mint) s s' else s'"
  have 1: "only_received (expectedPayments st) (expectedPayments ?st1)"
    by (simp add: only_received_refl only_received_match_and_handle)
  have 2: "only_received (expectedPayments ?st1) (expectedPayments (fold ?f (ts_tokenChanges s) ?st1))"
    by (rule only_received_fold)
      (simp add: only_received_refl only_received_match_and_handle split: prod.splits)
  have "checkExpectedPaymentMatches co sy w s st = fold ?f (ts_tokenChanges s) ?st1"
    by (simp add: checkExpectedPaymentMatches_def Let_def)
  with only_received_trans [OF 1 2] show ?thesis by simp
qed

lemma expectedPayments_sendNotification [simp]:
  "expectedPayments (sendTransactionNotification co sy ws w s st) = expectedPayments st"
  by (simp add: sendTransactionNotification_def trackTransactionMessage_def
      split: option.splits prod.splits)

lemma only_received_process_transaction:
  "only_received (expectedPayments st) (expectedPayments (process_transaction co sy ws w tx st))"
proof (cases "getTransactionSummary co (signature tx) w")
  case None
  then show ?thesis by (simp add: process_transaction_def only_received_refl)
next
  case (Some s)
  show ?thesis
  proof (cases "discordBot co")
    case True
    show ?thesis
    proof (cases "getBalanceChangeSummary co w s")
      case None
      then show ?thesis
        using Some True by (simp add: process_transaction_def only_received_refl)
    next
      case (Some balanceChangeSummary)
      have "only_received (expectedPayments (sendTransactionNotification co sy ws w s st))
              (expectedPayments (checkExpectedPaymentMatches co sy w s
                 (sendTransactionNotification co sy ws w s st)))"
        by (rule only_received_checkMatches)
      then show ?thesis
        using \<open>getTransactionSummary co (signature tx) w = Some s\<close> True Some
        by (simp add: process_transaction_def)
    qed
  next
    case False
    then show ?thesis using Some by (simp add: process_transaction_def only_received_refl)
  qed
qed

lemma only_received_checkWallet:
  "only_received (expectedPayments (storage m))
     (expectedPayments (storage (checkWalletTransactions co sy w m)))"
proof -
  obtain new lcs where g: "getNewTransactions (getRecentTransactions co w) w
      (lastCheckedSignatures m) = (new, lcs)"
    by (cases "getNewTransactions (getRecentTransactions co w) w (lastCheckedSignatures m)")
  show ?thesis
  proof (cases "new = []")
    case True
    then show ?thesis using g by (simp add: checkWalletTransactions_def only_received_refl)
  next
    case False
    have "only_received (expectedPayments (storage m))
            (expectedPayments (fold (process_transaction co sy (walletStorage m) w) (rev new)
               (storage m)))"
      by (rule only_received_fold) (rule only_received_process_transaction)
    then show ?thesis using g False by (simp add: checkWalletTransactions_def)
  qed
qed

lemma only_received_checkAllWallets:
  "only_received (expectedPayments (storage m))
     (expectedPayments (storage (checkAllWallets co sy m)))"
proof -
  have "only_received (expectedPayments (storage m))
          (expectedPayments (storage (fold (checkWalletTransactions co sy) ws m)))" for ws
  proof (induction ws arbitrary: m)
    case Nil
    show ?case by (simp add: only_received_refl)
  next
    case (Cons w ws)
    have "only_received (expectedPayments (storage m))
            (expectedPayments (storage (checkWalletTransactions co sy w m)))"
      by (rule only_received_checkWallet)
    moreover have "only_received (expectedPayments (storage (checkWalletTransactions co sy w m)))
            (expectedPayments (storage (fold (checkWalletTransactions co sy) ws
               (checkWalletTransactions co sy w m))))"
      by (rule Cons.IH)
    ultimately show ?case using only_received_trans by force
  qed
  then show ?thesis by (simp add: checkAllWallets_def)
qed

lemma only_received_tick:
  "only_received (expectedPayments (storage m)) (expectedPayments (storage (tick co sy m)))"
  by (simp add: tick_def only_received_refl only_received_checkAllWallets)

lemma expectedPayments_start:
  "expectedPayments (storage (snd (start sy m))) =
     map (\<lambda>(k, payment).
            (k, if is_overdue (clock sy (io (storage m))) payment
                then payment\<lparr>status := Expired\<rparr> else payment))
       (expectedPayments (storage m))"
proof -
  obtain r st1 where c: "cleanupExpiredPayments sy (storage m) = (r, st1)"
    by (cases "cleanupExpiredPayments sy (storage m)")
  have e1: "expectedPayments st1 =
     map (\<lambda>(k, payment).
            (k, if is_overdue (clock sy (io (storage m))) payment
                then payment\<lparr>status := Expired\<rparr> else payment))
       (expectedPayments (storage m))"
    using expectedPayments_cleanupExpired [of sy "storage m"] c by simp
  obtain r2 st2 where o: "cleanupOldTransactionMessages sy st1 = (r2, st2)"
    by (cases "cleanupOldTransactionMessages sy st1")
  have e2: "expectedPayments st2 = expectedPayments st1"
    using expectedPayments_cleanupOld [of sy st1] o by simp
  show ?thesis
    using c o e1 e2 by (cases r; cases r2) (simp_all add: start_def Let_def)
qed

lemma ex_tick_quiet: "tick ex_co_quiet ex_sys ex_monitor_due = ex_monitor_due"
  by (simp add: tick_def checkAllWallets_def checkWalletTransactions_def getAllWallets_def
      ex_ws_maps getNewTransactions_def ex_monitor_due_def ex_co_quiet_def)

text \<open>
  Claim C5, as stated, fails: a tick does not look at due times. Here a pending payment
  whose due time has passed is still pending after a tick.
\<close>

theorem overdue_payment_survives_tick:
  "getExpectedPaymentById (storage ex_monitor_due) ''d1'' = Some ex_due \<and>
   status ex_due = Pending \<and>
   is_overdue (clock ex_sys (io (storage ex_monitor_due))) ex_due \<and>
   getExpectedPaymentById (storage (tick ex_co_quiet ex_sys ex_monitor_due)) ''d1'' = Some ex_due"
proof -
  have a: "getExpectedPaymentById (storage ex_monitor_due) ''d1'' = Some ex_due"
    by (simp add: ex_monitor_due_def getExpectedPaymentById_def ex_due_store)
  have b: "status ex_due = Pending" by (simp add: ex_due_def)
  have c: "is_overdue (clock ex_sys (io (storage ex_monitor_due))) ex_due"
    by (simp add: ex_monitor_due_def ex_due_io is_overdue_def ex_due_def ex_sys_def)
  show ?thesis using a b c by (simp add: ex_tick_quiet)
qed

text \<open>
  Claim C5, amended. The step from pending to expired is taken in \<open>start\<close>, once, before
  the timer is set up: after \<open>start\<close> every payment that was pending with its due time
  passed is expired and every other payment is as it was. A tick leaves every payment as
  it was or sets its status to received, and a payment that is expired after a tick was
  expired before it.
\<close>

theorem expiry_only_at_start:
  "(\<forall>k p. getExpectedPaymentById (storage m) k = Some p \<longrightarrow>
      getExpectedPaymentById (storage (snd (start sy m))) k =
        Some (if is_overdue (clock sy (io (storage m))) p then p\<lparr>status := Expired\<rparr> else p)) \<and>
   (\<forall>k p. getExpectedPaymentById (storage m) k = Some p \<longrightarrow>
      getExpectedPaymentById (storage (tick co sy' m)) k = Some p \<or>
      getExpectedPaymentById (storage (tick co sy' m)) k = Some (p\<lparr>status := Received\<rparr>)) \<and>
   (\<forall>k p'. getExpectedPaymentById (storage (tick co sy' m)) k = Some p' \<and>
      status p' = Expired \<longrightarrow>
      getExpectedPaymentById (storage m) k = Some p')"
proof -
  have s: "\<forall>k p. getExpectedPaymentById (storage m) k = Some p \<longrightarrow>
      getExpectedPaymentById (storage (snd (start sy m))) k =
        Some (if is_overdue (clock sy (io (storage m))) p then p\<lparr>status := Expired\<rparr> else p)"
    by (simp add: getExpectedPaymentById_def expectedPayments_start map_of_mark_expired)
  have t: "\<forall>k p. getExpectedPaymentById (storage m) k = Some p \<longrightarrow>
      getExpectedPaymentById (storage (tick co sy' m)) k = Some p \<or>
      getExpectedPaymentById (storage (tick co sy' m)) k = Some (p\<lparr>status := Received\<rparr>)"
  proof (intro allI impI)
    fix k p
    assume a: "getExpectedPaymentById (storage m) k = Some p"
    from only_received_tick [of m co sy']
    have "map_of (expectedPayments (storage (tick co sy' m))) k =
            map_of (expectedPayments (storage m)) k \<or>
          (\<exists>q. map_of (expectedPayments (storage m)) k = Some q \<and>
               map_of (expectedPayments (storage (tick co sy' m))) k =
                 Some (q\<lparr>status := Received\<rparr>))"
      by (simp add: only_received_def)
    with a show "getExpectedPaymentById (storage (tick co sy' m)) k = Some p \<or>
      getExpectedPaymentById (storage (tick co sy' m)) k = Some (p\<lparr>status := Received\<rparr>)"
      unfolding getExpectedPaymentById_def by (elim disjE exE conjE) simp_all
  qed
  have e: "\<forall>k p'. getExpectedPaymentById (storage (tick co sy' m)) k = Some p' \<and>
      status p' = Expired \<longrightarrow>
      getExpectedPaymentById (storage m) k = Some p'"
  proof (intro allI impI)
    fix k p'
    assume a: "getExpectedPaymentById (storage (tick co sy' m)) k = Some p' \<and> status p' = Expired"
    from only_received_tick [of m co sy']
    have "map_of (expectedPayments (storage (tick co sy' m))) k =
            map_of (expectedPayments (storage m)) k \<or>
          (\<exists>q. map_of (expectedPayments (storage m)) k = Some q \<and>
               map_of (expectedPayments (storage (tick co sy' m))) k =
                 Some (q\<lparr>status := Received\<rparr>))"
      by (simp add: only_received_def)
    with a show "getExpectedPaymentById (storage m) k = Some p'"
      unfolding getExpectedPaymentById_def by (elim disjE exE conjE) auto
  qed
  show ?thesis using s t e by blast
qed

theorem expiry_only_at_start_witness:
  "getExpectedPaymentById (storage ex_monitor_due) ''d1'' = Some ex_due \<and>
   is_overdue (clock ex_sys (io (storage ex_monitor_due))) ex_due \<and>
   getExpectedPaymentById (storage (snd (start ex_sys ex_monitor_due))) ''d1'' =
     Some (ex_due\<lparr>status := Expired\<rparr>) \<and>
   (getExpectedPaymentById (storage (tick ex_co_tx ex_sys ex_monitor_due)) ''d1'' = Some ex_due \<or>
    getExpectedPaymentById (storage (tick ex_co_tx ex_sys ex_monitor_due)) ''d1'' =
      Some (ex_due\<lparr>status := Received\<rparr>))"
proof -
  have a: "getExpectedPaymentById (storage ex_monitor_due) ''d1'' = Some ex_due"
    by (simp add: ex_monitor_due_def getExpectedPaymentById_def ex_due_store)
  have c: "is_overdue (clock ex_sys (io (storage ex_monitor_due))) ex_due"
    by (simp add: ex_monitor_due_def ex_due_io is_overdue_def ex_due_def ex_sys_def)
  show ?thesis
    using expiry_only_at_start [of ex_monitor_due ex_sys ex_co_tx ex_sys] a c by auto
qed

subsection \<open>The map stays keyed by the identifiers\<close>

lemma keyed_update:
  assumes "keyed_by_id eps"
  shows "keyed_by_id (AList.update (ep_id p) p eps)"
  using assms by (auto simp: keyed_by_id_def distinct_update update_conv')

lemma keyed_delete:
  assumes "keyed_by_id eps"
  shows "keyed_by_id (AList.delete k eps)"
  using assms by (auto simp: keyed_by_id_def distinct_delete delete_conv' split: if_splits)

lemma fst_mark_expired:
  "map fst (map (\<lambda>(k, payment). (k, if is_overdue now payment then payment\<lparr>status := Expired\<rparr> else payment)) eps)
     = map fst eps"
  by (induction eps) auto

lemma keyed_mark_expired:
  assumes "keyed_by_id eps"
  shows "keyed_by_id (map (\<lambda>(k, payment). (k, if is_overdue now payment then payment\<lparr>status := Expired\<rparr> else payment)) eps)"
  using assms unfolding keyed_by_id_def fst_mark_expired map_of_mark_expired by auto

lemma keyed_map_entry:
  assumes "keyed_by_id eps"
  shows "keyed_by_id (AList.map_entry k (\<lambda>p. p\<lparr>status := s\<rparr>) eps)"
  using assms
  by (auto simp: keyed_by_id_def distinct_map_entry map_of_map_entry split: if_splits option.splits)

lemma keyed_lookup:
  assumes "keyed_by_id eps" and "p \<in> snd ` set eps"
  shows "map_of eps (ep_id p) = Some p"
proof -
  from assms(2) obtain k where kp: "(k, p) \<in> set eps" by auto
  with assms(1) have m: "map_of eps k = Some p" by (simp add: keyed_by_id_def)
  with assms(1) have "ep_id p = k" by (simp add: keyed_by_id_def)
  with m show ?thesis by simp
qed

subsection \<open>Matching moves pending payments only\<close>

lemma pending_to_received_refl: "pending_to_received eps eps"
  by (simp add: pending_to_received_def)

lemma pending_to_received_trans:
  assumes "pending_to_received a b" and "pending_to_received b c"
  shows "pending_to_received a c"
  unfolding pending_to_received_def
proof
  fix k
  from assms(1) have ab: "map_of b k = map_of a k \<or>
      (\<exists>p. map_of a k = Some p \<and> status p = Pending \<and>
           map_of b k = Some (p\<lparr>status := Received\<rparr>))"
    by (simp add: pending_to_received_def)
  from assms(2) have bc: "map_of c k = map_of b k \<or>
      (\<exists>p. map_of b k = Some p \<and> status p = Pending \<and>
           map_of c k = Some (p\<lparr>status := Received\<rparr>))"
    by (simp add: pending_to_received_def)
  show "map_of c k = map_of a k \<or>
      (\<exists>p. map_of a k = Some p \<and> status p = Pending \<and>
           map_of c k = Some (p\<lparr>status := Received\<rparr>))"
  proof (cases "map_of b k = map_of a k")
    case True
    with bc show ?thesis by simp
  next
    case False
    with ab obtain p where a: "map_of a k = Some p" and pp: "status p = Pending"
      and b: "map_of b k = Some (p\<lparr>status := Received\<rparr>)" by blast
    from bc b have "map_of c k = Some (p\<lparr>status := Received\<rparr>)" by auto
    with a pp show ?thesis by simp
  qed
qed

lemma match_and_handle_pending:
  assumes "keyed_by_id (expectedPayments st)"
  shows "keyed_by_id (expectedPayments (match_and_handle co sy w a mint s st)) \<and>
         pending_to_received (expectedPayments st)
           (expectedPayments (match_and_handle co sy w a mint s st))"
proof (cases "findMatchingExpectedPayment st w a mint")
  case None
  then show ?thesis using assms by (simp add: match_and_handle_def pending_to_received_refl)
next
  case (Some m)
  show ?thesis
  proof (cases "discordBot co")
    case False
    then show ?thesis
      using Some assms by (simp add: match_and_handle_def pending_to_received_refl)
  next
    case True
    let ?k = "ep_id (expectedPayment m)"
    let ?eps' = "AList.map_entry ?k (\<lambda>p. p\<lparr>status := Received\<rparr>) (expectedPayments st)"
    have e: "expectedPayments (match_and_handle co sy w a mint s st) = ?eps'"
      using Some True by (simp add: match_and_handle_def expectedPayments_handle)
    from findMatching_SomeD [OF Some]
    have mem: "expectedPayment m \<in> snd ` set (expectedPayments st)"
      and pend: "status (expectedPayment m) = Pending" by simp_all
    have look: "map_of (expectedPayments st) ?k = Some (expectedPayment m)"
      by (rule keyed_lookup [OF assms mem])
    have "pending_to_received (expectedPayments st) ?eps'"
      using look pend by (auto simp: pending_to_received_def map_of_map_entry)
    moreover have "keyed_by_id ?eps'" by (rule keyed_map_entry [OF assms])
    ultimately show ?thesis using e by simp
  qed
qed

lemma fold_pending:
  assumes step: "\<And>x s. keyed_by_id (expectedPayments s) \<Longrightarrow>
            keyed_by_id (expectedPayments (f x s)) \<and>
            pending_to_received (expectedPayments s) (expectedPayments (f x s))"
    and "keyed_by_id (expectedPayments st)"
  shows "keyed_by_id (expectedPayments (fold f xs st)) \<and>
         pending_to_received (expectedPayments st) (expectedPayments (fold f xs st))"
  using assms(2)
proof (induction xs arbitrary: st)
  case Nil
  then show ?case by (simp add: pending_to_received_refl)
next
  case (Cons x xs)
  from step [OF Cons.prems] have k1: "keyed_by_id (expectedPayments (f x st))"
    and r1: "pending_to_received (expectedPayments st) (expectedPayments (f x st))"
    by simp_all
  from Cons.IH [OF k1] have k2: "keyed_by_id (expectedPayments (fold f xs (f x st)))"
    and r2: "pending_to_received (expectedPayments (f x st))
               (expectedPayments (fold f xs (f x st)))"
    by simp_all
  from pending_to_received_trans [OF r1 r2] k2 show ?case by simp
qed

lemma checkMatches_pending:
  assumes "keyed_by_id (expectedPayments st)"
  shows "keyed_by_id (expectedPayments (checkExpectedPaymentMatches co sy w s st)) \<and>
         pending_to_received (expectedPayments st)
           (expectedPayments (checkExpectedPaymentMatches co sy w s st))"
proof -
  let ?st1 = "if fgt (ts_solChange s) (Num 0)
              then match_and_handle co sy w (ts_solChange s) None s st else st"
  let ?f = "\<lambda>(mint, chg) s'. if fgt chg (Num 0)
              then match_and_handle co sy w chg (Some mint) s s' else s'"
  have 1: "keyed_by_id (expectedPayments ?st1) \<and>
           pending_to_received (expectedPayments st) (expectedPayments ?st1)"
    using assms match_and_handle_pending [OF assms]
    by (simp add: pending_to_received_refl)
  have 2: "keyed_by_id (expectedPayments (fold ?f (ts_tokenChanges s) ?st1)) \<and>
           pending_to_received (expectedPayments ?st1)
             (expectedPayments (fold ?f (ts_tokenChanges s) ?st1))"
  proof (rule fold_pending)
    show "keyed_by_id (expectedPayments ?st1)" using 1 by simp
  next
    fix x :: "string \<times> js_number" and s' :: ep_store
    assume k: "keyed_by_id (expectedPayments s')"
    obtain mint chg where x: "x = (mint, chg)" by (cases x)
    show "keyed_by_id (expectedPayments (?f x s')) \<and>
          pending_to_received (expectedPayments s') (expectedPayments (?f x s'))"
      using k match_and_handle_pending [OF k] x
      by (simp add: pending_to_received_refl)
  qed
  have c: "checkExpectedPaymentMatches co sy w s st = fold ?f (ts_tokenChanges s) ?st1"
    by (simp add: checkExpectedPaymentMatches_def Let_def)
  from 1 2 have "pending_to_received (expectedPayments st)
                   (expectedPayments (fold ?f (ts_tokenChanges s) ?st1))"
    using pending_to_received_trans by blast
  with 2 c show ?thesis by simp
qed

subsection \<open>One operation of the store\<close>

lemma apply_op_keyed:
  assumes "keyed_by_id (expectedPayments st)"
  shows "keyed_by_id (expectedPayments (apply_op x st))"
proof -
  obtain co sy op where x: "x = (co, sy, op)" by (cases x)
  show ?thesis
  proof (cases op)
    case (OpAdd q)
    then show ?thesis using x assms by (simp add: keyed_update)
  next
    case (OpRemove u k)
    then show ?thesis
      using x assms expectedPayments_remove [of sy u k st] keyed_delete [OF assms, of k]
      by auto
  next
    case OpCleanupExpired
    then show ?thesis using x assms by (simp add: keyed_mark_expired)
  next
    case (OpMatch w s)
    then show ?thesis using x checkMatches_pending [OF assms] by simp
  next
    case (OpAddNote n)
    then show ?thesis using x assms by simp
  next
    case (OpTrack msg)
    then show ?thesis using x assms by simp
  next
    case OpCleanupOld
    then show ?thesis using x assms by simp
  qed
qed

text \<open>
  The empty store is keyed by the identifiers, and so is every store that the operations
  build from it.
\<close>

lemma keyed_empty: "keyed_by_id []"
  by (simp add: keyed_by_id_def)

lemma fold_apply_op_keyed:
  assumes "keyed_by_id (expectedPayments st)"
  shows "keyed_by_id (expectedPayments (fold apply_op ops st))"
  using assms
proof (induction ops arbitrary: st)
  case Nil
  then show ?case by simp
next
  case (Cons x ops)
  from apply_op_keyed [OF Cons.prems] have "keyed_by_id (expectedPayments (apply_op x st))" .
  from Cons.IH [OF this] show ?case by simp
qed

lemma apply_op_terminal:
  assumes k: "keyed_by_id (expectedPayments st)"
    and p: "map_of (expectedPayments st) pid = Some p" and np: "status p \<noteq> Pending"
    and noadd: "\<forall>q. snd (snd x) = OpAdd q \<longrightarrow> ep_id q \<noteq> pid"
  shows "map_of (expectedPayments (apply_op x st)) pid = Some p \<or>
         ((\<exists>u. snd (snd x) = OpRemove u pid) \<and>
          map_of (expectedPayments (apply_op x st)) pid = None)"
proof -
  obtain co sy op where x: "x = (co, sy, op)" by (cases x)
  show ?thesis
  proof (cases op)
    case (OpAdd q)
    then show ?thesis using x p noadd by (simp add: update_conv')
  next
    case (OpRemove u k')
    show ?thesis
    proof (cases "k' = pid")
      case True
      then show ?thesis
        using x p OpRemove expectedPayments_remove [of sy u k' st]
        by (auto simp: delete_conv')
    next
      case False
      then show ?thesis
        using x p OpRemove expectedPayments_remove [of sy u k' st]
        by (auto simp: delete_conv')
    qed
  next
    case OpCleanupExpired
    have "\<not> is_overdue (clock sy (io st)) p" using np by (simp add: is_overdue_def)
    then show ?thesis using x p OpCleanupExpired by (simp add: map_of_mark_expired)
  next
    case (OpMatch w s)
    from checkMatches_pending [OF k, of co sy w s]
    have "pending_to_received (expectedPayments st)
            (expectedPayments (checkExpectedPaymentMatches co sy w s st))" by simp
    then have "map_of (expectedPayments (checkExpectedPaymentMatches co sy w s st)) pid =
                 map_of (expectedPayments st) pid \<or>
               (\<exists>q. map_of (expectedPayments st) pid = Some q \<and> status q = Pending \<and>
                    map_of (expectedPayments (checkExpectedPaymentMatches co sy w s st)) pid =
                      Some (q\<lparr>status := Received\<rparr>))"
      by (simp add: pending_to_received_def)
    with p np have "map_of (expectedPayments (checkExpectedPaymentMatches co sy w s st)) pid = Some p"
      by auto
    then show ?thesis using x OpMatch by simp
  next
    case (OpAddNote n)
    then show ?thesis using x p by simp
  next
    case (OpTrack msg)
    then show ?thesis using x p by simp
  next
    case OpCleanupOld
    then show ?thesis using x p by simp
  qed
qed

lemma apply_op_absent:
  assumes "map_of (expectedPayments st) pid = None"
    and noadd: "\<forall>q. snd (snd x) = OpAdd q \<longrightarrow> ep_id q \<noteq> pid"
  shows "map_of (expectedPayments (apply_op x st)) pid = None"
proof -
  obtain co sy op where x: "x = (co, sy, op)" by (cases x)
  show ?thesis
  proof (cases op)
    case (OpAdd q)
    then show ?thesis using x assms by (simp add: update_conv')
  next
    case (OpRemove u k')
    then show ?thesis
      using x assms(1) expectedPayments_remove [of sy u k' st]
      by (auto simp: delete_conv')
  next
    case OpCleanupExpired
    then show ?thesis using x assms(1) by (simp add: map_of_mark_expired)
  next
    case (OpMatch w s)
    from only_received_checkMatches [of st co sy w s]
    have "map_of (expectedPayments (checkExpectedPaymentMatches co sy w s st)) pid =
            map_of (expectedPayments st) pid \<or>
          (\<exists>q. map_of (expectedPayments st) pid = Some q \<and>
               map_of (expectedPayments (checkExpectedPaymentMatches co sy w s st)) pid =
                 Some (q\<lparr>status := Received\<rparr>))"
      by (simp add: only_received_def)
    with assms(1) show ?thesis using x OpMatch by auto
  next
    case (OpAddNote n)
    then show ?thesis using x assms(1) by simp
  next
    case (OpTrack msg)
    then show ?thesis using x assms(1) by simp
  next
    case OpCleanupOld
    then show ?thesis using x assms(1) by simp
  qed
qed

lemma fold_absent:
  assumes "map_of (expectedPayments st) pid = None"
    and "\<forall>x \<in> set ops. \<forall>q. snd (snd x) = OpAdd q \<longrightarrow> ep_id q \<noteq> pid"
  shows "map_of (expectedPayments (fold apply_op ops st)) pid = None"
  using assms
proof (induction ops arbitrary: st)
  case Nil
  then show ?case by simp
next
  case (Cons x ops)
  have "map_of (expectedPayments (apply_op x st)) pid = None"
    using Cons.prems by (intro apply_op_absent) simp_all
  then have "map_of (expectedPayments (fold apply_op ops (apply_op x st))) pid = None"
    using Cons.prems by (intro Cons.IH) simp_all
  then show ?case by simp
qed

lemma ex_received_payments:
  "expectedPayments ex_received = [(''e1'', ex_exact\<lparr>status := Received\<rparr>)]"
  by (simp add: ex_received_def ex_defs op_defs)

text \<open>
  Claim C1, as stated, fails: \<open>updateExpectedPaymentStatus\<close> assigns the status it is
  given without reading the current one. Here it moves a received payment back to
  pending.
\<close>

theorem received_can_return_to_pending:
  "getExpectedPaymentById ex_received ''e1'' = Some (ex_exact\<lparr>status := Received\<rparr>) \<and>
   getExpectedPaymentById (snd (updateExpectedPaymentStatus ex_sys ''e1'' Pending ex_received))
     ''e1'' = Some (ex_exact\<lparr>status := Pending\<rparr>)"
  by (simp add: getExpectedPaymentById_def expectedPayments_update ex_received_payments
      ex_exact_def)

text \<open>
  Claim C1, amended. In a store keyed by the identifiers, a payment that is received or
  expired is not changed by any sequence of these operations: adding a payment under
  another identifier, removing, expiry clean-up, the match handling of the monitor,
  adding a note, tracking a message and the clean-up of old messages. It stays as it is
  until it is removed, and it stays when the sequence does not remove it.
\<close>

theorem terminal_status_kept:
  assumes "keyed_by_id (expectedPayments st)"
    and "getExpectedPaymentById st pid = Some p" and "status p \<noteq> Pending"
    and "\<forall>x \<in> set ops. \<forall>q. snd (snd x) = OpAdd q \<longrightarrow> ep_id q \<noteq> pid"
  shows "(getExpectedPaymentById (fold apply_op ops st) pid = Some p \<or>
          getExpectedPaymentById (fold apply_op ops st) pid = None) \<and>
         ((\<forall>x \<in> set ops. \<forall>u. snd (snd x) \<noteq> OpRemove u pid) \<longrightarrow>
          getExpectedPaymentById (fold apply_op ops st) pid = Some p)"
  using assms unfolding getExpectedPaymentById_def
proof (induction ops arbitrary: st)
  case Nil
  then show ?case by simp
next
  case (Cons x ops)
  have k': "keyed_by_id (expectedPayments (apply_op x st))"
    by (rule apply_op_keyed [OF Cons.prems(1)])
  have noadd: "\<forall>q. snd (snd x) = OpAdd q \<longrightarrow> ep_id q \<noteq> pid" using Cons.prems(4) by simp
  have rest: "\<forall>y \<in> set ops. \<forall>q. snd (snd y) = OpAdd q \<longrightarrow> ep_id q \<noteq> pid"
    using Cons.prems(4) by simp
  from apply_op_terminal [OF Cons.prems(1) Cons.prems(2) Cons.prems(3) noadd]
  show ?case
  proof
    assume s: "map_of (expectedPayments (apply_op x st)) pid = Some p"
    from Cons.IH [OF k' s Cons.prems(3) rest] show ?thesis by simp
  next
    assume r: "(\<exists>u. snd (snd x) = OpRemove u pid) \<and>
               map_of (expectedPayments (apply_op x st)) pid = None"
    then have "map_of (expectedPayments (fold apply_op ops (apply_op x st))) pid = None"
      using rest by (intro fold_absent) simp_all
    with r show ?thesis by auto
  qed
qed

theorem terminal_status_kept_witness:
  "keyed_by_id (expectedPayments ex_received) \<and>
   getExpectedPaymentById ex_received ''e1'' = Some (ex_exact\<lparr>status := Received\<rparr>) \<and>
   status (ex_exact\<lparr>status := Received\<rparr>) \<noteq> Pending \<and>
   getExpectedPaymentById (fold apply_op ex_ops ex_received) ''e1'' =
     Some (ex_exact\<lparr>status := Received\<rparr>)"
proof -
  have k: "keyed_by_id (expectedPayments ex_received)"
    by (simp add: ex_received_payments keyed_by_id_def ex_exact_def)
  have g: "getExpectedPaymentById ex_received ''e1'' = Some (ex_exact\<lparr>status := Received\<rparr>)"
    by (simp add: getExpectedPaymentById_def ex_received_payments)
  have s: "status (ex_exact\<lparr>status := Received\<rparr>) \<noteq> Pending" by simp
  have a: "\<forall>x \<in> set ex_ops. \<forall>q. snd (snd x) = OpAdd q \<longrightarrow> ep_id q \<noteq> ''e1''"
    by (simp add: ex_ops_def ex_tol_def)
  have r: "\<forall>x \<in> set ex_ops. \<forall>u. snd (snd x) \<noteq> OpRemove u ''e1''"
    by (simp add: ex_ops_def)
  show ?thesis using terminal_status_kept [OF k g s a] k g s r by blast
qed

section \<open>Notes of a transaction\<close>

text \<open>The command \<open>/add-payment-note\<close> refuses a second note on a transaction.\<close>

lemma handleAddPaymentNote_rejects_duplicate:
  assumes "getPaymentNoteByTransaction st sig = Some n"
  shows "handleAddPaymentNote sy u sig txt st = (NoteAlreadyExists, st)"
  using assms by (simp add: handleAddPaymentNote_def)

text \<open>
  Claim C6 at a failing input. A user attaches a note to transaction \<open>tx1\<close> with the
  command; then the monitor matches \<open>tx1\<close> against an expected payment. The match handler
  stores its note without looking for an existing one: the transaction has two notes.
\<close>

theorem matcher_adds_second_note:
  "handleAddPaymentNote ex_sys ''u1'' ''tx1'' ''thanks'' (add_all [ex_exact] ex_empty) =
     (NoteAdded, ex_noted) \<and>
   map (\<lambda>(k, n). (k, pn_transactionSignature n, isExpectedPayment n)) (paymentNotes ex_noted) =
     [(''idx'', ''tx1'', False)] \<and>
   map (\<lambda>(k, n). (k, pn_transactionSignature n, isExpectedPayment n))
     (paymentNotes (checkExpectedPaymentMatches ex_co_quiet ex_sys ''walletA'' ex_summary ex_noted)) =
     [(''idx'', ''tx1'', False), (''idxxxx'', ''tx1'', True)]"
  by (simp add: ex_noted_def handleAddPaymentNote_def getPaymentNoteByTransaction_def
      ex_defs op_defs)

text \<open>
  The same happens on the other path without the check: after a tick that matched \<open>tx1\<close>,
  a reply of the user to the notification is stored as a second note of \<open>tx1\<close>.
\<close>

lemma reply_adds_second_note:
  "map (\<lambda>(k, n). (k, pn_transactionSignature n, isExpectedPayment n))
     (paymentNotes (storage (tick ex_co_tx ex_sys ex_monitor))) =
     [(''idxxx'', ''tx1'', True)] \<and>
   fst (handleDirectMessage ex_sys ''u1'' ''thanks'' (storage (tick ex_co_tx ex_sys ex_monitor))) =
     DmNoteAdded \<and>
   map (\<lambda>(k, n). (k, pn_transactionSignature n, isExpectedPayment n))
     (paymentNotes (snd (handleDirectMessage ex_sys ''u1'' ''thanks''
        (storage (tick ex_co_tx ex_sys ex_monitor))))) =
     [(''idxxx'', ''tx1'', True), (''idxxxxx'', ''tx1'', False)]"
  by (simp add: tick_def checkAllWallets_def checkWalletTransactions_def getAllWallets_def
      getWalletOwner_def ex_ws_maps
      getNewTransactions_def process_transaction_def sendTransactionNotification_def
      trackTransactionMessage_def addRecentTransactionMessage_def handleDirectMessage_def
      getRecentTransactionByUser_def ex_monitor_def ex_defs op_defs)

end
